theory Spec2Isabelle
  imports Complex_Main "HOL-Library.AList" "HOL-Library.Log_Nat"
begin

section \<open>Python strings and integers\<close>

text \<open>
  Python \<open>str\<close> values are modelled as HOL strings (lists of 8-bit characters), that is,
  as texts whose code points are below 256. Python integers are unbounded and are
  modelled as \<open>int\<close>.
\<close>

definition is_digit :: "char \<Rightarrow> bool" where
  "is_digit c = (c \<in> set ''0123456789'')"

definition digit_val :: "char \<Rightarrow> nat" where
  "digit_val c = of_char c - 48"

definition digit_char :: "nat \<Rightarrow> char" where
  "digit_char d = ''0123456789'' ! d"

text \<open>\<open>str(n)\<close> for a non-negative integer: its decimal digits, most significant first.\<close>

fun str_nat :: "nat \<Rightarrow> string" where
  "str_nat n = (if n < 10 then [digit_char n] else str_nat (n div 10) @ [digit_char (n mod 10)])"

declare str_nat.simps [simp del]

text \<open>\<open>str(i)\<close> for a Python integer.\<close>

definition str_int :: "int \<Rightarrow> string" where
  "str_int i = (if i < 0 then CHR ''-'' # str_nat (nat (- i)) else str_nat (nat i))"

text \<open>\<open>s.startswith(p)\<close> and the substring test \<open>sub in s\<close>.\<close>

definition startswith :: "string \<Rightarrow> string \<Rightarrow> bool" where
  "startswith s p = (take (length p) s = p)"

fun py_in :: "string \<Rightarrow> string \<Rightarrow> bool" where
  "py_in sub [] = (sub = [])"
| "py_in sub (c # cs) = (startswith (c # cs) sub \<or> py_in sub cs)"

text \<open>
  \<open>s.split(sep)\<close> for a one-character separator: the pieces between the separators,
  never an empty list (\<open>"".split("=")\<close> is \<open>[""]\<close>).
\<close>

fun split_on :: "char \<Rightarrow> string \<Rightarrow> string list" where
  "split_on sep [] = [[]]"
| "split_on sep (c # cs) =
     (if c = sep then [] # split_on sep cs
      else (case split_on sep cs of [] \<Rightarrow> [[c]] | p # ps \<Rightarrow> (c # p) # ps))"

text \<open>\<open>s.replace(c, "")\<close> for a one-character \<open>c\<close>: every occurrence is removed.\<close>

definition remove_char :: "char \<Rightarrow> string \<Rightarrow> string" where
  "remove_char c s = filter (\<lambda>x. x \<noteq> c) s"

text \<open>
  \<open>s.strip()\<close> removes leading and trailing whitespace; below code point 256 the
  characters with \<open>str.isspace\<close> are the ones listed. \<open>s.strip('"')\<close> removes leading
  and trailing double quotes.
\<close>

definition py_isspace :: "char \<Rightarrow> bool" where
  "py_isspace c = (c \<in> set [CHR 0x09, CHR 0x0A, CHR 0x0B, CHR 0x0C, CHR 0x0D,
                            CHR 0x1C, CHR 0x1D, CHR 0x1E, CHR 0x1F, CHR 0x20,
                            CHR 0x85, CHR 0xA0])"

definition strip_where :: "(char \<Rightarrow> bool) \<Rightarrow> string \<Rightarrow> string" where
  "strip_where P s = rev (dropWhile P (rev (dropWhile P s)))"

definition strip :: "string \<Rightarrow> string" where
  "strip s = strip_where py_isspace s"

definition strip_quotes :: "string \<Rightarrow> string" where
  "strip_quotes s = strip_where (\<lambda>c. c = CHR 0x22) s"

text \<open>
  \<open>s.lower()\<close>: the ASCII capitals and the Latin-1 capitals (code points 192 to 222
  except 215) move up by 32; nothing else below 256 changes.
\<close>

definition lower_char :: "char \<Rightarrow> char" where
  "lower_char c =
     (let n = (of_char c :: nat)
      in if (65 \<le> n \<and> n \<le> 90) \<or> (192 \<le> n \<and> n \<le> 222 \<and> n \<noteq> 215)
         then char_of (n + 32) else c)"

definition lower :: "string \<Rightarrow> string" where
  "lower s = map lower_char s"

text \<open>
  CPython (3.11 and later) refuses to convert between \<open>str\<close> and \<open>int\<close> when more than
  4300 decimal digits are involved, unless the limit has been changed; the program does
  not change it.
\<close>

definition max_str_digits :: nat where
  "max_str_digits = 4300"

text \<open>
  The whitespace that \<open>int(s)\<close> itself skips at both ends: the ASCII characters tab,
  newline, vertical tab, form feed, carriage return and space, and the whitespace above
  ASCII. Unlike \<open>str.strip\<close> it does not skip the separators U+001C to U+001F.
\<close>

definition int_isspace :: "char \<Rightarrow> bool" where
  "int_isspace c = (c \<in> set [CHR 0x09, CHR 0x0A, CHR 0x0B, CHR 0x0C, CHR 0x0D, CHR 0x20,
                             CHR 0x85, CHR 0xA0])"

text \<open>
  \<open>int(s)\<close> on a string: surrounding whitespace is skipped, then an optional sign, then
  decimal digits, where single underscores may stand between digits. Anything else, and a
  string with more than \<open>max_str_digits\<close> digits (leading zeros count), raises
  \<open>ValueError\<close>, which is \<open>None\<close> here.
\<close>

fun int_body :: "nat \<Rightarrow> string \<Rightarrow> nat option" where
  "int_body acc [] = Some acc"
| "int_body acc [c] = (if is_digit c then Some (10 * acc + digit_val c) else None)"
| "int_body acc (c # d # cs) =
     (if is_digit c then int_body (10 * acc + digit_val c) (d # cs)
      else if c = CHR ''_'' \<and> is_digit d then int_body acc (d # cs)
      else None)"

definition int_unsigned :: "string \<Rightarrow> nat option" where
  "int_unsigned s =
     (case s of [] \<Rightarrow> None
      | c # cs \<Rightarrow>
          if is_digit c
          then (if max_str_digits < length (filter is_digit (c # cs)) then None
                else int_body 0 (c # cs))
          else None)"

definition py_int :: "string \<Rightarrow> int option" where
  "py_int s =
     (case strip_where int_isspace s of
        [] \<Rightarrow> None
      | c # cs \<Rightarrow>
          if c = CHR ''-'' then map_option (\<lambda>n. - int n) (int_unsigned cs)
          else if c = CHR ''+'' then map_option int (int_unsigned cs)
          else map_option int (int_unsigned (c # cs)))"

text \<open>
  \<open>str(i)\<close> where the integer may be of any size: \<open>ValueError\<close> beyond the digit limit.
\<close>

definition py_str :: "int \<Rightarrow> string option" where
  "py_str i =
     (if max_str_digits < length (str_nat (nat \<bar>i\<bar>)) then None else Some (str_int i))"

text \<open>
  \<open>re.search(r'(\d+)%', s)\<close>, returning group 1 of the match: the scan tries each start
  position from the left; at a position, \<open>\d+\<close> takes the longest run of digits and the
  next character must be \<open>%\<close> (giving digits back cannot help, since the character after
  a shorter run is a digit).
\<close>

fun re_search_percent :: "string \<Rightarrow> string option" where
  "re_search_percent [] = None"
| "re_search_percent (c # cs) =
     (let ds = takeWhile is_digit (c # cs);
          rest = dropWhile is_digit (c # cs)
      in if ds \<noteq> [] \<and> (case rest of [] \<Rightarrow> False | r # _ \<Rightarrow> r = CHR ''%'')
         then Some ds else re_search_percent cs)"

section \<open>Configuration\<close>

text \<open>
  A value read by \<open>json.load\<close>. A floating-point number is a mantissa with a binary
  exponent, an infinity or a NaN; no operation of the program inspects one. A Python
  \<open>dict\<close> is an association list in insertion order; a lookup finds the entry of a key,
  and \<open>d[key] = v\<close> (\<open>AList.update\<close>) replaces the value in place or appends a new
  entry.
\<close>

datatype py_float = Finite int int | PosInfinity | NegInfinity | NaN

datatype json =
    JNull
  | JBool bool
  | JInt int
  | JFloat py_float
  | JStr string
  | JArr "json list"
  | JObj "(string \<times> json) list"

type_synonym pydict = "(string \<times> json) list"

datatype error =
  ValueError | IndexError | TypeError | AttributeError | IOError | ZeroDivisionError
  | OverflowError

definition DEFAULT_CONFIG :: pydict where
  "DEFAULT_CONFIG =
     [(''upper_limit'', JInt 80),
      (''lower_limit'', JInt 20),
      (''pause_limit'', JInt 50),
      (''reset_limit'', JInt 80),
      (''cpu_stress'', JStr ''high''),
      (''gpu_stress'', JStr ''off'')]"

text \<open>\<open>key in d\<close> and \<open>d.get(key, default)\<close> on a dict.\<close>

definition dict_has :: "pydict \<Rightarrow> string \<Rightarrow> bool" where
  "dict_has d key = (map_of d key \<noteq> None)"

definition dict_get :: "pydict \<Rightarrow> string \<Rightarrow> json \<Rightarrow> json" where
  "dict_get d key dflt = (case map_of d key of None \<Rightarrow> dflt | Some v \<Rightarrow> v)"

text \<open>
  The state of the configuration file when \<open>load_config\<close> runs: it does not exist, or
  opening or parsing it raises, or \<open>json.load\<close> returns a value.
\<close>

datatype config_file = NoFile | Unparsable | Parsed json

text \<open>The merge loop of \<open>load_config\<close> on a dict: \<open>for key in DEFAULT_CONFIG: ...\<close>.\<close>

fun merge_defaults :: "pydict \<Rightarrow> pydict \<Rightarrow> pydict" where
  "merge_defaults [] config = config"
| "merge_defaults ((key, v) # rest) config =
     merge_defaults rest (if dict_has config key then config else AList.update key v config)"

text \<open>
  \<open>load_config\<close>. \<open>json.load\<close> may return something other than a dict. On a list,
  \<open>key not in config\<close> compares the key with the elements, and on a string it is the
  substring test; the assignment \<open>config[key] = ...\<close> then raises \<open>TypeError\<close>. On a number,
  a boolean or \<open>null\<close> the membership test itself raises. Every exception ends in
  \<open>except: pass\<close> and the defaults are returned.
\<close>

definition load_config :: "config_file \<Rightarrow> json" where
  "load_config f =
     (case f of
        NoFile \<Rightarrow> JObj DEFAULT_CONFIG
      | Unparsable \<Rightarrow> JObj DEFAULT_CONFIG
      | Parsed v \<Rightarrow>
          (case v of
             JObj config \<Rightarrow> JObj (merge_defaults DEFAULT_CONFIG config)
           | JArr xs \<Rightarrow>
               if list_all (\<lambda>key. JStr key \<in> set xs) (map fst DEFAULT_CONFIG)
               then JArr xs else JObj DEFAULT_CONFIG
           | JStr s \<Rightarrow>
               if list_all (\<lambda>key. py_in key s) (map fst DEFAULT_CONFIG)
               then JStr s else JObj DEFAULT_CONFIG
           | _ \<Rightarrow> JObj DEFAULT_CONFIG))"

text \<open>
  The migration of a legacy stress field in \<open>__init__\<close>: a boolean becomes \<open>"high"\<close> or
  \<open>"off"\<close> and is stored back. The level is then used as \<open>level.title()\<close>, which raises
  \<open>AttributeError\<close> unless it is a string.
\<close>

definition migrate_field :: "string \<Rightarrow> string \<Rightarrow> pydict \<Rightarrow> error option \<times> pydict" where
  "migrate_field key dflt config =
     (case dict_get config key (JStr dflt) of
        JBool b \<Rightarrow> (None, AList.update key (JStr (if b then ''high'' else ''off'')) config)
      | JStr level \<Rightarrow> (None, config)
      | _ \<Rightarrow> (Some AttributeError, config))"

definition migrate :: "pydict \<Rightarrow> error option \<times> pydict" where
  "migrate config =
     (case migrate_field ''cpu_stress'' ''high'' config of
        (Some e, config1) \<Rightarrow> (Some e, config1)
      | (None, config1) \<Rightarrow> migrate_field ''gpu_stress'' ''off'' config1)"

section \<open>Status probes\<close>

text \<open>
  What \<open>subprocess.run\<close> does: it raises (timeout, missing binary, undecodable output),
  or it returns the exit status and the captured standard output. The output is the
  decoded text: \<open>text=True\<close> in \<open>get_battery_info\<close>, \<open>decode('utf-8', 'replace')\<close>, which
  never raises, in the other probes.
\<close>

datatype run_result = RunRaised | Completed int string

text \<open>
  \<open>get_battery_info\<close>. The exit status is never read. \<open>int\<close> of the matched digits is
  inside the \<open>try\<close>: when it raises, because the digits are more than \<open>max_str_digits\<close>,
  the result is the fallback pair.
\<close>

definition get_battery_info :: "run_result \<Rightarrow> int \<times> bool" where
  "get_battery_info r =
     (case r of
        RunRaised \<Rightarrow> (0, False)
      | Completed rc output \<Rightarrow>
          (let charging = (py_in ''charging'' (lower output) \<or> py_in ''AC Power'' output)
           in case re_search_percent output of
                None \<Rightarrow> (0, charging)
              | Some ds \<Rightarrow>
                  (case py_int ds of
                     None \<Rightarrow> (0, False)
                   | Some percent \<Rightarrow> (percent, charging))))"

text \<open>
  The session-counter file when it is read: absent (\<open>os.path.exists\<close> is false), or
  opening or reading raises, or its bytes.
\<close>

datatype file_read = Absent | ReadError | Content string

text \<open>
  \<open>bytes.decode('ascii', 'replace')\<close> never raises: a byte above 127 becomes the replacement
  character U+FFFD. That character is beyond code point 255; \<open>CHR 0xFF\<close> stands for it.
  Like U+FFFD it is no whitespace, no digit, no sign, no quote and no separator, and the
  operations applied to the decoded text ask nothing else of a character.
\<close>

definition decode_ascii :: "string \<Rightarrow> string" where
  "decode_ascii bs = map (\<lambda>b. if (of_char b :: nat) < 128 then b else CHR 0xFF) bs"

text \<open>\<open>line.split("=")[1]\<close>: the second piece, \<open>IndexError\<close> (\<open>None\<close>) when there is none.\<close>

definition field1 :: "string \<Rightarrow> string option" where
  "field1 line = (case split_on (CHR ''='') line of _ # v # _ \<Rightarrow> Some v | _ \<Rightarrow> None)"

definition lines :: "string \<Rightarrow> string list" where
  "lines content = split_on (CHR 0x0A) content"

text \<open>
  The loop of \<open>get_cycle_info\<close> over the lines of the counter file. An exception leaves
  the loop with \<open>cycles\<close> as it was last assigned.
\<close>

fun cycles_loop :: "int \<Rightarrow> string list \<Rightarrow> error option \<times> int" where
  "cycles_loop cycles [] = (None, cycles)"
| "cycles_loop cycles (line # rest) =
     (if startswith line ''TOTAL_DISCHARGE_CYCLES='' then
        (case field1 line of
           None \<Rightarrow> (Some IndexError, cycles)
         | Some v \<Rightarrow>
             (case py_int (strip v) of
                None \<Rightarrow> (Some ValueError, cycles)
              | Some n \<Rightarrow> cycles_loop n rest))
      else cycles_loop cycles rest)"

text \<open>The loop over the power-data report: the first matching line wins (\<open>break\<close>).\<close>

fun find_health :: "string \<Rightarrow> string list \<Rightarrow> string" where
  "find_health health [] = health"
| "find_health health (line # rest) =
     (if py_in ''Maximum Capacity'' line \<and> py_in '':'' line
      then strip (last (split_on (CHR '':'') line))
      else find_health health rest)"

text \<open>
  \<open>get_cycle_info\<close>: one \<open>try\<close> block holds the counter-file read followed by the
  power-data query; \<open>except: pass\<close> keeps whatever was assigned before the exception.
\<close>

definition health_query :: "int \<Rightarrow> run_result \<Rightarrow> int \<times> string" where
  "health_query cycles prof =
     (case prof of
        RunRaised \<Rightarrow> (cycles, ''--'')
      | Completed rc output \<Rightarrow> (cycles, find_health ''--'' (lines output)))"

definition get_cycle_info :: "file_read \<Rightarrow> run_result \<Rightarrow> int \<times> string" where
  "get_cycle_info sf prof =
     (case sf of
        Absent \<Rightarrow> health_query 0 prof
      | ReadError \<Rightarrow> (0, ''--'')
      | Content content \<Rightarrow>
          (case cycles_loop 0 (lines (decode_ascii content)) of
             (Some e, cycles) \<Rightarrow> (cycles, ''--'')
           | (None, cycles) \<Rightarrow> health_query cycles prof))"

section \<open>Statistics\<close>

subsection \<open>Session counters\<close>

record counters =
  script_cycles :: int
  initial_health :: string
  initial_apple_cycles :: string
  total_active_secs :: int
  total_discharge_secs :: int
  total_charge_secs :: int

definition initial_counters :: counters where
  "initial_counters =
     \<lparr>script_cycles = 0, initial_health = ''N/A'', initial_apple_cycles = ''N/A'',
      total_active_secs = 0, total_discharge_secs = 0, total_charge_secs = 0\<rparr>"

text \<open>
  The three duration lines of \<open>show_stats\<close> share one shape: the assignment is inside its
  own \<open>try\<close> with \<open>except: pass\<close>, so a failure keeps the old value and the loop goes on.
\<close>

definition guarded_int :: "string \<Rightarrow> int \<Rightarrow> int" where
  "guarded_int line old =
     (case field1 line of
        None \<Rightarrow> old
      | Some v \<Rightarrow> (case py_int (strip v) of None \<Rightarrow> old | Some n \<Rightarrow> n))"

text \<open>
  The loop of \<open>show_stats\<close> over the lines of the counter file, in the order of its
  \<open>if\<close>/\<open>elif\<close> chain. The \<open>TOTAL_DISCHARGE_CYCLES\<close> branch and the two baseline branches
  have no \<open>try\<close> of their own: an exception there leaves the loop, and the \<open>except: pass\<close>
  around the whole file read keeps the counters as they stand.
\<close>

fun state_loop :: "counters \<Rightarrow> string list \<Rightarrow> error option \<times> counters" where
  "state_loop st [] = (None, st)"
| "state_loop st (line # rest) =
     (if startswith line ''TOTAL_DISCHARGE_CYCLES='' then
        (case field1 line of
           None \<Rightarrow> (Some IndexError, st)
         | Some v \<Rightarrow>
             (case py_int (strip v) of
                None \<Rightarrow> (Some ValueError, st)
              | Some n \<Rightarrow> state_loop (st\<lparr>script_cycles := n\<rparr>) rest))
      else if startswith line ''INITIAL_HEALTH='' then
        (case field1 line of
           None \<Rightarrow> (Some IndexError, st)
         | Some v \<Rightarrow>
             (let val = strip_quotes (strip v)
              in state_loop (if val \<noteq> [] then st\<lparr>initial_health := val @ ''%''\<rparr> else st) rest))
      else if startswith line ''INITIAL_APPLE_CYCLES='' then
        (case field1 line of
           None \<Rightarrow> (Some IndexError, st)
         | Some v \<Rightarrow>
             (let val = strip_quotes (strip v)
              in state_loop (if val \<noteq> [] then st\<lparr>initial_apple_cycles := val\<rparr> else st) rest))
      else if startswith line ''TOTAL_ACTIVE_SECS='' then
        state_loop (st\<lparr>total_active_secs := guarded_int line (total_active_secs st)\<rparr>) rest
      else if startswith line ''TOTAL_DISCHARGE_SECS='' then
        state_loop (st\<lparr>total_discharge_secs := guarded_int line (total_discharge_secs st)\<rparr>) rest
      else if startswith line ''TOTAL_CHARGE_SECS='' then
        state_loop (st\<lparr>total_charge_secs := guarded_int line (total_charge_secs st)\<rparr>) rest
      else state_loop st rest)"

definition read_counters :: "file_read \<Rightarrow> counters" where
  "read_counters sf =
     (case sf of
        Absent \<Rightarrow> initial_counters
      | ReadError \<Rightarrow> initial_counters
      | Content content \<Rightarrow>
          snd (state_loop initial_counters (lines (decode_ascii content))))"

subsection \<open>Calculated health\<close>

text \<open>
  The loop of \<open>show_stats\<close> over the register dump: each of the two fields is read inside
  its own \<open>try\<close>, the last readable line wins.
\<close>

definition last_field_int :: "string \<Rightarrow> int option \<Rightarrow> int option" where
  "last_field_int line old =
     (case py_int (strip (last (split_on (CHR ''='') line))) of
        None \<Rightarrow> old
      | Some n \<Rightarrow> Some n)"

fun ioreg_loop :: "int option \<times> int option \<Rightarrow> string list \<Rightarrow> int option \<times> int option" where
  "ioreg_loop caps [] = caps"
| "ioreg_loop (nominal_cap, design_cap) (line # rest) =
     (let nominal_cap' =
            (if py_in ''\"NominalChargeCapacity\"'' line \<and> py_in ''='' line
             then last_field_int line nominal_cap else nominal_cap);
          design_cap' =
            (if py_in ''\"DesignCapacity\"'' line \<and> py_in ''='' line
             then last_field_int line design_cap else design_cap)
      in ioreg_loop (nominal_cap', design_cap') rest)"

subsubsection \<open>Floating-point division\<close>

text \<open>
  The integer nearest to \<open>num / den\<close> for a positive \<open>den\<close>, a tie going to the even one.
\<close>

definition round_half_even_div :: "int \<Rightarrow> int \<Rightarrow> int" where
  "round_half_even_div num den =
     (let f = num div den; r2 = 2 * (num mod den)
      in if r2 < den then f
         else if den < r2 then f + 1
         else if even f then f else f + 1)"

text \<open>
  For positive \<open>a\<close> and \<open>b\<close>: the \<open>l\<close> with \<open>2 ^ l \<le> a / b < 2 ^ (l + 1)\<close>, found from the bit
  lengths, which fix it up to one.
\<close>

definition floor_log2_quot :: "int \<Rightarrow> int \<Rightarrow> int" where
  "floor_log2_quot a b =
     (let l = bitlen a - bitlen b
      in if (if 0 \<le> l then b * 2 ^ nat l \<le> a else b \<le> a * 2 ^ nat (- l))
         then l else l - 1)"

text \<open>
  The exponent of the last of the 53 mantissa bits of a double of that size; it stops at
  \<open>- 1074\<close>, where the subnormal numbers begin.
\<close>

definition ulp_exponent :: "int \<Rightarrow> int \<Rightarrow> int" where
  "ulp_exponent a b = max (- 1074) (floor_log2_quot a b - 52)"

text \<open>
  The double nearest to \<open>a / b\<close> for positive \<open>a\<close> and \<open>b\<close>, as the pair \<open>(m, e)\<close> that stands
  for \<open>m * 2 ^ e\<close>: the quotient scaled to the last mantissa bit and rounded, ties to even.
\<close>

definition nearest_double :: "int \<Rightarrow> int \<Rightarrow> int \<times> int" where
  "nearest_double a b =
     (let e = ulp_exponent a b
      in (if 0 \<le> e then round_half_even_div a (b * 2 ^ nat e)
          else round_half_even_div (a * 2 ^ nat (- e)) b, e))"

text \<open>
  \<open>int(a / b)\<close> for integers \<open>a\<close> and \<open>b\<close>. Python's true division of integers gives the
  correctly rounded double, \<open>ZeroDivisionError\<close> for a zero divisor and \<open>OverflowError\<close>
  when the rounded quotient is beyond the largest double; the sign is that of the
  operands. \<open>int\<close> then cuts the fraction off, towards zero.
\<close>

definition float_div_trunc :: "int \<Rightarrow> int \<Rightarrow> error + int" where
  "float_div_trunc a b =
     (if b = 0 then Inl ZeroDivisionError
      else if a = 0 then Inr 0
      else (case nearest_double \<bar>a\<bar> \<bar>b\<bar> of
              (m, e) \<Rightarrow>
                if 0 \<le> e
                then (if 2 ^ 1024 \<le> m * 2 ^ nat e then Inl OverflowError
                      else Inr (sgn a * sgn b * (m * 2 ^ nat e)))
                else Inr (sgn a * sgn b * (m div 2 ^ nat (- e)))))"


text \<open>
  The pair \<open>(calc_health, cap_info)\<close> of \<open>show_stats\<close>. In the condition
  \<open>nominal_cap and design_cap and design_cap > 0\<close> a capacity that is \<open>None\<close> or \<open>0\<close> is
  false. An exception of the division or of \<open>str\<close> is not caught here: it ends the report
  (the handler around all of \<open>show_stats\<close> shows an error dialog).
\<close>

definition calc_health_cap :: "int option \<Rightarrow> int option \<Rightarrow> error + string \<times> string" where
  "calc_health_cap nominal_cap design_cap =
     (case (nominal_cap, design_cap) of
        (Some n, Some d) \<Rightarrow>
          if n \<noteq> 0 \<and> d \<noteq> 0 \<and> d > 0
          then (case float_div_trunc (n * 100) d of
                  Inl e \<Rightarrow> Inl e
                | Inr h \<Rightarrow>
                    (case (py_str h, py_str n, py_str d) of
                       (Some hs, Some ns, Some ds) \<Rightarrow>
                         Inr (hs @ ''%'', ns @ ''/'' @ ds @ '' mAh'')
                     | _ \<Rightarrow> Inl ValueError))
          else Inr (''N/A'', ''N/A'')
      | _ \<Rightarrow> Inr (''N/A'', ''N/A''))"

definition register_health :: "string \<Rightarrow> error + string \<times> string" where
  "register_health output2 =
     (case ioreg_loop (None, None) (lines output2) of
        (nominal_cap, design_cap) \<Rightarrow> calc_health_cap nominal_cap design_cap)"

subsection \<open>Duration formatting\<close>


section \<open>The cycling session controller\<close>

text \<open>
  What the application does to the outside, in order: writing the configuration file,
  signalling the session, launching it, killing helper processes by name, calling the
  battery CLI, posting a notification.
\<close>

datatype event =
    ConfigSaved pydict
  | KillPg nat
  | KillPgFailed nat
  | Terminate nat
  | Launched nat
  | Pkill "string list"
  | BatteryCmd "string list"
  | Notification string

text \<open>
  The outside world during one operation: the configuration file; which processes have
  not exited (what \<open>poll()\<close> finds); the process id the next \<open>Popen\<close> gets; whether
  writing the configuration file raises, and what it then leaves on disk; whether
  signalling the process group succeeds; the events so far. Launching \<open>bash\<close>, running
  \<open>pkill\<close> (whose exit status is not read) and posting a notification are taken to
  return.
\<close>

record world =
  config_disk :: config_file
  alive :: "nat \<Rightarrow> bool"
  next_pid :: nat
  save_failure :: "config_file option"
  killpg_ok :: bool
  trace :: "event list"

text \<open>
  The fields of \<open>BatteryCyclerApp\<close> that the controller owns, and the two menu titles that
  \<open>update_status\<close> sets together with the handle. The other menu items are presentation.
\<close>

record app =
  config :: pydict
  script_process :: "nat option"
  status_title :: string
  toggle_title :: string

definition emit :: "event list \<Rightarrow> world \<Rightarrow> world" where
  "emit es w = w\<lparr>trace := trace w @ es\<rparr>"

text \<open>\<open>self.script_process and self.script_process.poll() is None\<close>.\<close>

definition is_active :: "app \<Rightarrow> world \<Rightarrow> bool" where
  "is_active a w = (case script_process a of None \<Rightarrow> False | Some pid \<Rightarrow> alive w pid)"

text \<open>\<open>save_config\<close>: an I/O error is not caught.\<close>

definition save_config :: "app \<Rightarrow> world \<Rightarrow> error option \<times> world" where
  "save_config a w =
     (case save_failure w of
        Some left \<Rightarrow> (Some IOError, w\<lparr>config_disk := left\<rparr>)
      | None \<Rightarrow>
          (None, emit [ConfigSaved (config a)] (w\<lparr>config_disk := Parsed (JObj (config a))\<rparr>)))"

text \<open>
  The block \<open>try: os.killpg(os.getpgid(pid), SIGTERM) except: self.script_process.terminate()\<close>.
\<close>

definition signal_session :: "nat \<Rightarrow> world \<Rightarrow> world" where
  "signal_session pid w =
     (if killpg_ok w then emit [KillPg pid] w else emit [KillPgFailed pid, Terminate pid] w)"

text \<open>
  The block \<open>if self.script_process and self.script_process.poll() is None: ...\<close> of
  \<open>pause_at_percent\<close> and \<open>stop_at_percent\<close>: signal the session and clear the handle.
\<close>

definition stop_if_running :: "app \<Rightarrow> world \<Rightarrow> app \<times> world" where
  "stop_if_running a w =
     (case script_process a of
        None \<Rightarrow> (a, w)
      | Some pid \<Rightarrow>
          if alive w pid then (a\<lparr>script_process := None\<rparr>, signal_session pid w)
          else (a, w))"

text \<open>
  \<open>update_status\<close>. The two probes it calls first catch every exception and only feed the
  title and the info item; the handle is cleared when the session is not running.
\<close>

definition update_status :: "app \<Rightarrow> world \<Rightarrow> app" where
  "update_status a w =
     (if is_active a w
      then a\<lparr>status_title := ''Status: Cycling Active'', toggle_title := ''Stop Cycling''\<rparr>
      else a\<lparr>status_title := ''Status: Idle'', toggle_title := ''Start Cycling'',
             script_process := None\<rparr>)"

text \<open>\<open>toggle_cycling\<close>.\<close>

definition toggle_cycling :: "app \<Rightarrow> world \<Rightarrow> error option \<times> app \<times> world" where
  "toggle_cycling a w =
     (case (if is_active a w then script_process a else None) of
        Some pid \<Rightarrow>
          (let w1 = signal_session pid w;
               a1 = a\<lparr>script_process := None\<rparr>;
               w2 = emit [Notification ''Cycling stopped''] w1
           in (None, update_status a1 w2, w2))
      | None \<Rightarrow>
          (case save_config a w of
             (Some e, w1) \<Rightarrow> (Some e, a, w1)
           | (None, w1) \<Rightarrow>
               (let pid = next_pid w1;
                    w2 = emit [Launched pid] (w1\<lparr>next_pid := Suc pid\<rparr>);
                    a1 = a\<lparr>script_process := Some pid\<rparr>;
                    w3 = emit [Notification ''Cycling started''] w2
                in (None, update_status a1 w3, w3))))"

text \<open>
  \<open>pause_at_percent\<close> and \<open>stop_at_percent\<close>; \<open>title\<close> is the title of the menu item that
  was chosen. \<open>val\<close> is a number that \<open>int\<close> has read, so \<open>str(val)\<close> is within the digit
  limit. \<open>run_battery_cmd\<close> catches every exception of the CLI call.
\<close>

definition pause_at_percent :: "string \<Rightarrow> app \<Rightarrow> world \<Rightarrow> error option \<times> app \<times> world" where
  "pause_at_percent title a w =
     (case py_int (remove_char (CHR ''%'') title) of
        None \<Rightarrow> (Some ValueError, a, w)
      | Some val \<Rightarrow>
          (let a1 = a\<lparr>config := AList.update ''pause_limit'' (JInt val) (config a)\<rparr>
           in case save_config a1 w of
                (Some e, w1) \<Rightarrow> (Some e, a1, w1)
              | (None, w1) \<Rightarrow>
                  (case stop_if_running a1 w1 of
                     (a2, w2) \<Rightarrow>
                       (let w3 = emit [Pkill [''-9'', ''stress-ng''],
                                       Pkill [''-f'', ''ffmpeg.*videotoolbox'']] w2;
                            w4 = emit [BatteryCmd [''maintain'', str_int val]] w3;
                            w5 = emit [Notification
                                         (''Paused - holding at '' @ str_int val @ ''%'')] w4
                        in (None, update_status a2 w5, w5)))))"

definition stop_at_percent :: "string \<Rightarrow> app \<Rightarrow> world \<Rightarrow> error option \<times> app \<times> world" where
  "stop_at_percent title a w =
     (case py_int (remove_char (CHR ''%'') title) of
        None \<Rightarrow> (Some ValueError, a, w)
      | Some val \<Rightarrow>
          (let a1 = a\<lparr>config := AList.update ''reset_limit'' (JInt val) (config a)\<rparr>
           in case save_config a1 w of
                (Some e, w1) \<Rightarrow> (Some e, a1, w1)
              | (None, w1) \<Rightarrow>
                  (case stop_if_running a1 w1 of
                     (a2, w2) \<Rightarrow>
                       (let w3 = emit [Pkill [''-9'', ''stress-ng''],
                                       Pkill [''-f'', ''ffmpeg.*videotoolbox'']] w2;
                            w4 = emit [BatteryCmd [''maintain'', str_int val]] w3;
                            w5 = emit [Notification
                                         (''Stopped - reset to '' @ str_int val @ ''% limit'')] w4
                        in (None, update_status a2 w5, w5)))))"

text \<open>The titles of the items of the pause and stop submenus: \<open>range(20, 101, 5)\<close>.\<close>

definition percent_titles :: "string list" where
  "percent_titles = map (\<lambda>k. str_int (20 + 5 * int k) @ ''%'') [0..<17]"

section \<open>Notions used to state the properties\<close>

text \<open>The number that a string of decimal digits denotes.\<close>

definition dec_value :: "string \<Rightarrow> nat" where
  "dec_value ds = foldl (\<lambda>a c. 10 * a + digit_val c) 0 ds"

text \<open>
  A real number with its fraction cut off, towards zero, and the same for the quotient of
  two integers.
\<close>

definition trunc_real :: "real \<Rightarrow> int" where
  "trunc_real r = (if 0 \<le> r then \<lfloor>r\<rfloor> else \<lceil>r\<rceil>)"

definition trunc_div :: "int \<Rightarrow> int \<Rightarrow> int" where
  "trunc_div a b = sgn a * sgn b * (\<bar>a\<bar> div \<bar>b\<bar>)"

text \<open>Somewhere in the string a digit is immediately followed by a percent sign.\<close>

fun digit_then_percent :: "string \<Rightarrow> bool" where
  "digit_then_percent (a # b # cs) = ((is_digit a \<and> b = CHR ''%'') \<or> digit_then_percent (b # cs))"
| "digit_then_percent _ = False"

text \<open>
  The signals that stopping sends when the tracked session is running: to its process
  group, or, when that fails, to the tracked process; nothing when no session is running.
\<close>

definition stop_events :: "app \<Rightarrow> world \<Rightarrow> event list" where
  "stop_events a w =
     (case script_process a of
        None \<Rightarrow> []
      | Some pid \<Rightarrow>
          if alive w pid
          then (if killpg_ok w then [KillPg pid] else [KillPgFailed pid, Terminate pid])
          else [])"

section \<open>Properties of the duration format\<close>





section \<open>Properties of the configuration store\<close>

lemma update_absent: "map_of al k = None \<Longrightarrow> AList.update k v al = al @ [(k, v)]"
  by (induction al) auto

lemma dict_has_append: "dict_has (al @ [(k, v)]) k' = (dict_has al k' \<or> k' = k)"
  by (auto simp: dict_has_def map_of_append split: option.splits)

text \<open>
  The merge loop leaves the dict it is given as it is and appends, in the order of the
  defaults, the entries of the keys the dict does not have.
\<close>

lemma merge_defaults_append:
  "distinct (map fst defs) \<Longrightarrow>
   merge_defaults defs cfg = cfg @ filter (\<lambda>kv. \<not> dict_has cfg (fst kv)) defs"
proof (induction defs arbitrary: cfg)
  case Nil
  then show ?case by simp
next
  case (Cons kv defs)
  obtain k v where kv: "kv = (k, v)" by (cases kv)
  from Cons.prems kv have dist: "distinct (map fst defs)" and fresh: "k \<notin> fst ` set defs"
    by auto
  show ?case
  proof (cases "dict_has cfg k")
    case True
    then show ?thesis using Cons.IH [OF dist, of cfg] kv by simp
  next
    case False
    then have upd: "AList.update k v cfg = cfg @ [(k, v)]"
      by (simp add: dict_has_def update_absent)
    have "filter (\<lambda>kv. \<not> dict_has (cfg @ [(k, v)]) (fst kv)) defs
          = filter (\<lambda>kv. \<not> dict_has cfg (fst kv)) defs"
      using fresh by (intro filter_cong) (auto simp: dict_has_append)
    then show ?thesis
      using Cons.IH [OF dist, of "cfg @ [(k, v)]"] kv False upd by simp
  qed
qed

lemma distinct_default_keys: "distinct (map fst DEFAULT_CONFIG)"
  by (simp add: DEFAULT_CONFIG_def)

lemma load_config_dict:
  "load_config (Parsed (JObj cfg)) =
     JObj (cfg @ filter (\<lambda>kv. \<not> dict_has cfg (fst kv)) DEFAULT_CONFIG)"
  by (simp add: load_config_def merge_defaults_append distinct_default_keys)

lemma map_of_filter_absent:
  "map_of (filter (\<lambda>kv. map_of cfg (fst kv) = None) defs) key =
     (if map_of cfg key = None then map_of defs key else None)"
  by (induction defs) auto

lemma map_of_merged:
  "map_of (cfg @ filter (\<lambda>kv. \<not> dict_has cfg (fst kv)) defs) key =
     (case map_of cfg key of None \<Rightarrow> map_of defs key | Some v \<Rightarrow> Some v)"
  by (auto simp: map_add_def map_of_filter_absent dict_has_def split: option.splits)

lemma map_of_merge_defaults:
  "map_of (merge_defaults DEFAULT_CONFIG cfg) key =
     (case map_of cfg key of None \<Rightarrow> map_of DEFAULT_CONFIG key | Some v \<Rightarrow> Some v)"
  by (simp only: merge_defaults_append [OF distinct_default_keys] map_of_merged)

text \<open>
  A top-level JSON value without keys (a number, a boolean or \<open>null\<close>) gives the defaults.
\<close>

lemma load_config_scalar:
  "load_config (Parsed JNull) = JObj DEFAULT_CONFIG"
  "load_config (Parsed (JBool b)) = JObj DEFAULT_CONFIG"
  "load_config (Parsed (JInt i)) = JObj DEFAULT_CONFIG"
  "load_config (Parsed (JFloat x)) = JObj DEFAULT_CONFIG"
  by (simp_all add: load_config_def)

text \<open>
  C6: for a configuration file holding a JSON object with any subset of the keys,
  \<open>load_config\<close> returns a dict in which each of \<open>upper_limit\<close>, \<open>lower_limit\<close>,
  \<open>pause_limit\<close>, \<open>reset_limit\<close>, \<open>cpu_stress\<close> and \<open>gpu_stress\<close> is present and has the
  persisted value, or else its default 80, 20, 50, 80, "high", "off". When the file is
  missing or cannot be parsed, the result is exactly the defaults; no error is returned.
\<close>

theorem load_config_keys_present:
  "load_config (Parsed (JObj cfg)) = JObj (merge_defaults DEFAULT_CONFIG cfg)
   \<and> map_of (merge_defaults DEFAULT_CONFIG cfg) ''upper_limit'' =
        Some (case map_of cfg ''upper_limit'' of None \<Rightarrow> JInt 80 | Some v \<Rightarrow> v)
   \<and> map_of (merge_defaults DEFAULT_CONFIG cfg) ''lower_limit'' =
        Some (case map_of cfg ''lower_limit'' of None \<Rightarrow> JInt 20 | Some v \<Rightarrow> v)
   \<and> map_of (merge_defaults DEFAULT_CONFIG cfg) ''pause_limit'' =
        Some (case map_of cfg ''pause_limit'' of None \<Rightarrow> JInt 50 | Some v \<Rightarrow> v)
   \<and> map_of (merge_defaults DEFAULT_CONFIG cfg) ''reset_limit'' =
        Some (case map_of cfg ''reset_limit'' of None \<Rightarrow> JInt 80 | Some v \<Rightarrow> v)
   \<and> map_of (merge_defaults DEFAULT_CONFIG cfg) ''cpu_stress'' =
        Some (case map_of cfg ''cpu_stress'' of None \<Rightarrow> JStr ''high'' | Some v \<Rightarrow> v)
   \<and> map_of (merge_defaults DEFAULT_CONFIG cfg) ''gpu_stress'' =
        Some (case map_of cfg ''gpu_stress'' of None \<Rightarrow> JStr ''off'' | Some v \<Rightarrow> v)
   \<and> load_config NoFile =
        JObj [(''upper_limit'', JInt 80), (''lower_limit'', JInt 20),
              (''pause_limit'', JInt 50), (''reset_limit'', JInt 80),
              (''cpu_stress'', JStr ''high''), (''gpu_stress'', JStr ''off'')]
   \<and> load_config Unparsable = load_config NoFile"
proof -
  have "load_config (Parsed (JObj cfg)) = JObj (merge_defaults DEFAULT_CONFIG cfg)"
    by (simp add: load_config_def)
  moreover have "load_config NoFile =
        JObj [(''upper_limit'', JInt 80), (''lower_limit'', JInt 20),
              (''pause_limit'', JInt 50), (''reset_limit'', JInt 80),
              (''cpu_stress'', JStr ''high''), (''gpu_stress'', JStr ''off'')]"
    and "load_config Unparsable = load_config NoFile"
    by (simp_all add: load_config_def DEFAULT_CONFIG_def)
  moreover have "map_of DEFAULT_CONFIG ''upper_limit'' = Some (JInt 80)"
    and "map_of DEFAULT_CONFIG ''lower_limit'' = Some (JInt 20)"
    and "map_of DEFAULT_CONFIG ''pause_limit'' = Some (JInt 50)"
    and "map_of DEFAULT_CONFIG ''reset_limit'' = Some (JInt 80)"
    and "map_of DEFAULT_CONFIG ''cpu_stress'' = Some (JStr ''high'')"
    and "map_of DEFAULT_CONFIG ''gpu_stress'' = Some (JStr ''off'')"
    by (simp_all add: DEFAULT_CONFIG_def)
  ultimately show ?thesis
    by (simp add: map_of_merge_defaults split: option.splits)
qed

text \<open>
  C10: \<open>load_config\<close> validates nothing. For a file holding a JSON object, the returned
  dict is the stored entries, each with its stored value and in the stored order, followed
  by the defaults of the keys that are absent: a stored value outside its domain (an
  \<open>upper_limit\<close> of 999, a value that is not an integer) and an unknown key are returned as
  they were stored.
\<close>

theorem load_config_no_validation:
  assumes "map_of cfg key = Some v"
  shows "load_config (Parsed (JObj cfg)) =
           JObj (cfg @ filter (\<lambda>kv. \<not> dict_has cfg (fst kv)) DEFAULT_CONFIG)
         \<and> map_of (cfg @ filter (\<lambda>kv. \<not> dict_has cfg (fst kv)) DEFAULT_CONFIG) key = Some v"
  using assms by (simp add: load_config_dict map_of_merged)

theorem load_config_no_validation_witness:
  "map_of [(''upper_limit'', JInt 999), (''lower_limit'', JStr ''low''), (''theme'', JBool True)]
          ''theme'' = Some (JBool True)
   \<and> load_config (Parsed (JObj [(''upper_limit'', JInt 999), (''lower_limit'', JStr ''low''),
                                 (''theme'', JBool True)])) =
       JObj [(''upper_limit'', JInt 999), (''lower_limit'', JStr ''low''), (''theme'', JBool True),
             (''pause_limit'', JInt 50), (''reset_limit'', JInt 80),
             (''cpu_stress'', JStr ''high''), (''gpu_stress'', JStr ''off'')]"
  using load_config_no_validation
          [of "[(''upper_limit'', JInt 999), (''lower_limit'', JStr ''low''), (''theme'', JBool True)]"
              "''theme''" "JBool True"]
  by (simp add: dict_has_def DEFAULT_CONFIG_def)

subsection \<open>The migration of legacy stress fields\<close>

lemma dict_get_update:
  "dict_get (AList.update k v cfg) k' d = (if k' = k then v else dict_get cfg k' d)"
  by (simp add: dict_get_def update_conv')

lemma migrate_field_idem:
  "migrate_field key dflt (snd (migrate_field key dflt cfg)) = migrate_field key dflt cfg"
  by (cases "dict_get cfg key (JStr dflt)") (simp_all add: migrate_field_def dict_get_update)

lemma migrate_field_ok_str:
  "migrate_field key dflt cfg = (None, c1) \<Longrightarrow> \<exists>s. dict_get c1 key (JStr dflt) = JStr s"
  by (cases "dict_get cfg key (JStr dflt)")
     (auto simp: migrate_field_def dict_get_update)

lemma migrate_field_other:
  "migrate_field k2 d2 c1 = (e2, c2) \<Longrightarrow> k1 \<noteq> k2 \<Longrightarrow> dict_get c2 k1 d = dict_get c1 k1 d"
  by (cases "dict_get c1 k2 (JStr d2)")
     (auto simp: migrate_field_def dict_get_update)

lemma migrate_field_str:
  "dict_get cfg key (JStr dflt) = JStr s \<Longrightarrow> migrate_field key dflt cfg = (None, cfg)"
  by (simp add: migrate_field_def)

lemma migrate_booleans:
  "migrate [(''cpu_stress'', JBool True), (''gpu_stress'', JBool False)] =
     (None, [(''cpu_stress'', JStr ''high''), (''gpu_stress'', JStr ''off'')])"
  by (simp add: migrate_def migrate_field_def dict_get_def)

text \<open>
  C9: the migration of the legacy stress fields is idempotent: migrating the configuration
  that a migration produced changes nothing and ends the same way.
\<close>

theorem migrate_idempotent: "migrate (snd (migrate cfg)) = migrate cfg"
proof (cases "migrate_field ''cpu_stress'' ''high'' cfg")
  case (Pair e1 c1)
  have idem1: "migrate_field ''cpu_stress'' ''high'' c1 = (e1, c1)"
    using migrate_field_idem [of "''cpu_stress''" "''high''" cfg] Pair by simp
  show ?thesis
  proof (cases e1)
    case (Some e)
    then show ?thesis using Pair idem1 by (simp add: migrate_def)
  next
    case None
    obtain e2 c2 where m2: "migrate_field ''gpu_stress'' ''off'' c1 = (e2, c2)"
      by (cases "migrate_field ''gpu_stress'' ''off'' c1")
    have idem2: "migrate_field ''gpu_stress'' ''off'' c2 = (e2, c2)"
      using migrate_field_idem [of "''gpu_stress''" "''off''" c1] m2 by simp
    have cpu2: "migrate_field ''cpu_stress'' ''high'' c2 = (None, c2)"
    proof -
      from Pair None obtain s where "dict_get c1 ''cpu_stress'' (JStr ''high'') = JStr s"
        using migrate_field_ok_str by blast
      then have "dict_get c2 ''cpu_stress'' (JStr ''high'') = JStr s"
        using migrate_field_other [OF m2, of "''cpu_stress''"] by simp
      then show ?thesis by (rule migrate_field_str)
    qed
    show ?thesis using Pair None m2 idem2 cpu2 by (simp add: migrate_def)
  qed
qed

section \<open>Properties of the status probes\<close>

subsection \<open>Reading integers and finding the percentage\<close>

lemma int_body_digits:
  "ds \<noteq> [] \<Longrightarrow> list_all is_digit ds \<Longrightarrow>
   int_body acc ds = Some (foldl (\<lambda>a c. 10 * a + digit_val c) acc ds)"
proof (induction acc ds rule: int_body.induct)
  case (1 acc)
  then show ?case by simp
next
  case (2 acc c)
  then show ?case by simp
next
  case (3 acc c d cs)
  then show ?case by simp
qed

lemma not_space_digit: "is_digit c \<Longrightarrow> \<not> int_isspace c"
  by (auto simp: is_digit_def int_isspace_def)

lemma strip_where_id:
  "s \<noteq> [] \<Longrightarrow> \<not> P (hd s) \<Longrightarrow> \<not> P (last s) \<Longrightarrow> strip_where P s = s"
proof -
  assume ne: "s \<noteq> []" and h: "\<not> P (hd s)" and l: "\<not> P (last s)"
  have "dropWhile P s = s"
    using h by (simp add: dropWhile_eq_self_iff)
  moreover have "dropWhile P (rev s) = rev s"
    using ne l by (simp add: dropWhile_eq_self_iff hd_rev)
  ultimately show ?thesis by (simp add: strip_where_def)
qed

lemma strip_digits:
  assumes "ds \<noteq> []" "list_all is_digit ds"
  shows "strip_where int_isspace ds = ds"
proof -
  from assms have "is_digit (hd ds)" "is_digit (last ds)"
    by (auto simp: list_all_iff)
  then show ?thesis
    using assms(1) by (simp add: strip_where_id not_space_digit)
qed

lemma filter_digits: "list_all is_digit ds \<Longrightarrow> filter is_digit ds = ds"
  by (simp add: list_all_iff)

lemma py_int_digits:
  assumes "ds \<noteq> []" "list_all is_digit ds" "length ds \<le> max_str_digits"
  shows "py_int ds = Some (int (dec_value ds))"
proof -
  from assms obtain c cs where ds: "ds = c # cs" by (cases ds) auto
  have "c \<noteq> CHR ''-''" "c \<noteq> CHR ''+''" "is_digit c"
    using assms(2) ds by (auto simp: is_digit_def)
  moreover have "\<not> max_str_digits < length (filter is_digit (c # cs))"
    using assms(2,3) filter_digits [of ds] ds by simp
  ultimately show ?thesis
    using int_body_digits [OF assms(1,2), of 0] strip_digits [OF assms(1,2)] ds
    by (simp add: py_int_def int_unsigned_def dec_value_def del: filter.simps)
qed

lemma py_int_too_long:
  assumes "ds \<noteq> []" "list_all is_digit ds" "max_str_digits < length ds"
  shows "py_int ds = None"
proof -
  from assms obtain c cs where ds: "ds = c # cs" by (cases ds) auto
  have "c \<noteq> CHR ''-''" "c \<noteq> CHR ''+''" "is_digit c"
    using assms(2) ds by (auto simp: is_digit_def)
  moreover have "max_str_digits < length (filter is_digit (c # cs))"
    using assms(2,3) filter_digits [of ds] ds by simp
  ultimately show ?thesis
    using strip_digits [OF assms(1,2)] ds
    by (simp add: py_int_def int_unsigned_def del: filter.simps)
qed

lemma digit_then_percent_run:
  "ds \<noteq> [] \<Longrightarrow> list_all is_digit ds \<Longrightarrow> digit_then_percent (ds @ CHR ''%'' # sfx)"
  by (induction ds rule: digit_then_percent.induct) auto

lemma digit_then_percent_Cons: "digit_then_percent cs \<Longrightarrow> digit_then_percent (c # cs)"
  by (cases cs) auto

lemma match_here_digit_then_percent:
  assumes "takeWhile is_digit t \<noteq> []"
    and "dropWhile is_digit t = CHR ''%'' # sfx"
  shows "digit_then_percent t"
proof -
  have "t = takeWhile is_digit t @ CHR ''%'' # sfx"
    using assms(2) takeWhile_dropWhile_id [of is_digit t] by simp
  moreover have "list_all is_digit (takeWhile is_digit t)"
    by (auto simp: list_all_iff dest: set_takeWhileD)
  ultimately show ?thesis
    using digit_then_percent_run [OF assms(1), of sfx] by simp
qed

lemma re_search_percent_None:
  "\<not> digit_then_percent t \<Longrightarrow> re_search_percent t = None"
proof (induction t)
  case Nil
  then show ?case by simp
next
  case (Cons c cs)
  then have tl: "re_search_percent cs = None"
    using digit_then_percent_Cons by blast
  have "\<not> (takeWhile is_digit (c # cs) \<noteq> [] \<and>
           (case dropWhile is_digit (c # cs) of [] \<Rightarrow> False | r # _ \<Rightarrow> r = CHR ''%''))"
    using Cons.prems match_here_digit_then_percent [of "c # cs"]
    by (auto split: list.splits)
  then show ?case using tl by (simp only: re_search_percent.simps Let_def if_False)
qed

lemma percent_not_digit: "\<not> is_digit (CHR ''%'')"
  by (simp add: is_digit_def)

lemma re_search_percent_first:
  assumes "ds \<noteq> []" "list_all is_digit ds"
    and "\<not> digit_then_percent pfx"
    and "pfx = [] \<or> \<not> is_digit (last pfx)"
  shows "re_search_percent (pfx @ ds @ CHR ''%'' # sfx) = Some ds"
  using assms(3,4)
proof (induction pfx)
  case Nil
  obtain c cs where ds: "ds = c # cs" using assms(1) by (cases ds) auto
  have "takeWhile is_digit (ds @ CHR ''%'' # sfx) = ds"
    and "dropWhile is_digit (ds @ CHR ''%'' # sfx) = CHR ''%'' # sfx"
    using assms(2) by (simp_all add: list_all_iff takeWhile_append2 dropWhile_append2 percent_not_digit)
  then show ?case using ds assms(1) by (simp del: takeWhile.simps dropWhile.simps add: Let_def)
next
  case (Cons p ps)
  let ?t = "(p # ps) @ ds @ CHR ''%'' # sfx"
  have nd: "\<not> is_digit (last (p # ps))" using Cons.prems(2) by simp
  have mem: "last (p # ps) \<in> set (p # ps)" by (rule last_in_set) simp
  have tw: "takeWhile is_digit ?t = takeWhile is_digit (p # ps)"
    using takeWhile_append1 [of "last (p # ps)" "p # ps" is_digit] mem nd by simp
  have dw: "dropWhile is_digit ?t = dropWhile is_digit (p # ps) @ ds @ CHR ''%'' # sfx"
    using dropWhile_append1 [of "last (p # ps)" "p # ps" is_digit] mem nd by simp
  have ne: "dropWhile is_digit (p # ps) \<noteq> []"
    using mem nd by (metis dropWhile_eq_Nil_conv)
  have nomatch: "\<not> (takeWhile is_digit ?t \<noteq> [] \<and>
           (case dropWhile is_digit ?t of [] \<Rightarrow> False | r # _ \<Rightarrow> r = CHR ''%''))"
  proof
    assume m: "takeWhile is_digit ?t \<noteq> [] \<and>
           (case dropWhile is_digit ?t of [] \<Rightarrow> False | r # _ \<Rightarrow> r = CHR ''%'')"
    from ne obtain r rs where d: "dropWhile is_digit (p # ps) = r # rs"
      by (cases "dropWhile is_digit (p # ps)") auto
    with m dw have "r = CHR ''%''" by simp
    with d m tw have "digit_then_percent (p # ps)"
      using match_here_digit_then_percent [of "p # ps" rs] by simp
    with Cons.prems(1) show False by simp
  qed
  have "\<not> digit_then_percent ps"
    using Cons.prems(1) digit_then_percent_Cons by blast
  moreover have "ps = [] \<or> \<not> is_digit (last ps)"
    using Cons.prems(2) by (cases ps) auto
  ultimately have "re_search_percent (ps @ ds @ CHR ''%'' # sfx) = Some ds"
    by (rule Cons.IH)
  moreover have "re_search_percent ?t = re_search_percent (ps @ ds @ CHR ''%'' # sfx)"
    using nomatch by (simp only: append_Cons re_search_percent.simps Let_def if_False)
  ultimately show ?case by simp
qed

lemma re_search_percent_Some_digits:
  "re_search_percent t = Some ds \<Longrightarrow> ds \<noteq> [] \<and> list_all is_digit ds"
proof (induction t)
  case Nil
  then show ?case by simp
next
  case (Cons c cs)
  show ?case
  proof (cases "takeWhile is_digit (c # cs) \<noteq> [] \<and>
           (case dropWhile is_digit (c # cs) of [] \<Rightarrow> False | r # _ \<Rightarrow> r = CHR ''%'')")
    case True
    then have "ds = takeWhile is_digit (c # cs)"
      using Cons.prems by (auto simp del: takeWhile.simps dropWhile.simps simp: Let_def split: if_splits)
    then show ?thesis using True by (auto simp: list_all_iff dest: set_takeWhileD)
  next
    case False
    then have "re_search_percent cs = Some ds"
      using Cons.prems by (auto simp del: takeWhile.simps dropWhile.simps simp: Let_def split: if_splits)
    then show ?thesis by (rule Cons.IH)
  qed
qed

lemma get_battery_info_match:
  assumes "re_search_percent out = Some ds"
  shows "get_battery_info (Completed rc out) =
           (if length ds \<le> max_str_digits
            then (int (dec_value ds), py_in ''charging'' (lower out) \<or> py_in ''AC Power'' out)
            else (0, False))"
proof -
  have d: "ds \<noteq> []" "list_all is_digit ds"
    using re_search_percent_Some_digits [OF assms] by simp_all
  show ?thesis
  proof (cases "length ds \<le> max_str_digits")
    case True
    then show ?thesis
      using assms py_int_digits [OF d] by (simp add: get_battery_info_def)
  next
    case False
    then have "py_int ds = None" using py_int_too_long [OF d] by simp
    then show ?thesis using assms False by (simp add: get_battery_info_def)
  qed
qed

text \<open>
  C7, as the claim states it, fails: the exit status of the power-status query is never
  read, so a query that exits with a non-zero status and prints a percentage does not give
  the fallback pair.
\<close>

theorem get_battery_info_exit_status_counterexample:
  "get_battery_info (Completed 1 ''Battery-0 55%; charging'') \<noteq> (0, False)"
  by (simp add: get_battery_info_def is_digit_def py_int_def strip_where_def int_isspace_def
        int_unsigned_def digit_val_def max_str_digits_def)

text \<open>
  C7, amended: \<open>get_battery_info\<close> always returns a pair. When the query raises, the pair is
  \<open>(0, False)\<close>. When the query returns, whatever its exit status: if no digit is
  immediately followed by a percent sign, the percentage is 0; otherwise take the first
  run of digits that a percent sign follows: if it has at most 4300 digits, the percentage
  is the number it denotes, and if it has more, \<open>int\<close> raises and the pair is \<open>(0, False)\<close>.
  In the first two cases \<open>charging\<close> is true exactly when the lower-cased text contains
  "charging" or the text contains "AC Power".
\<close>

theorem get_battery_info_amended:
  "get_battery_info RunRaised = (0, False)
   \<and> (\<not> digit_then_percent out \<longrightarrow>
        get_battery_info (Completed rc out) =
          (0, py_in ''charging'' (lower out) \<or> py_in ''AC Power'' out))
   \<and> (out = pfx @ ds @ CHR ''%'' # sfx \<and> ds \<noteq> [] \<and> list_all is_digit ds
        \<and> \<not> digit_then_percent pfx \<and> (pfx = [] \<or> \<not> is_digit (last pfx))
      \<longrightarrow> get_battery_info (Completed rc out) =
            (if length ds \<le> max_str_digits
             then (int (dec_value ds), py_in ''charging'' (lower out) \<or> py_in ''AC Power'' out)
             else (0, False)))"
proof -
  have "get_battery_info RunRaised = (0, False)"
    by (simp add: get_battery_info_def)
  moreover have "\<not> digit_then_percent out \<longrightarrow>
        get_battery_info (Completed rc out) =
          (0, py_in ''charging'' (lower out) \<or> py_in ''AC Power'' out)"
    by (simp add: get_battery_info_def re_search_percent_None)
  moreover have "out = pfx @ ds @ CHR ''%'' # sfx \<and> ds \<noteq> [] \<and> list_all is_digit ds
        \<and> \<not> digit_then_percent pfx \<and> (pfx = [] \<or> \<not> is_digit (last pfx))
      \<longrightarrow> get_battery_info (Completed rc out) =
            (if length ds \<le> max_str_digits
             then (int (dec_value ds), py_in ''charging'' (lower out) \<or> py_in ''AC Power'' out)
             else (0, False))"
  proof (intro impI, elim conjE)
    assume o: "out = pfx @ ds @ CHR ''%'' # sfx" and d: "ds \<noteq> []" "list_all is_digit ds"
      and p: "\<not> digit_then_percent pfx" "pfx = [] \<or> \<not> is_digit (last pfx)"
    have "re_search_percent out = Some ds"
      unfolding o using d p by (rule re_search_percent_first)
    then show "get_battery_info (Completed rc out) =
            (if length ds \<le> max_str_digits
             then (int (dec_value ds), py_in ''charging'' (lower out) \<or> py_in ''AC Power'' out)
             else (0, False))"
      by (rule get_battery_info_match)
  qed
  ultimately show ?thesis by blast
qed

theorem get_battery_info_amended_witness:
  "''Now drawing from AC; Battery-0 5 of 87%; CHARGING''
     = ''Now drawing from AC; Battery-0 5 of '' @ ''87'' @ CHR ''%'' # ''; CHARGING''
   \<and> ''87'' \<noteq> [] \<and> list_all is_digit ''87'' \<and> length ''87'' \<le> max_str_digits
   \<and> \<not> digit_then_percent ''Now drawing from AC; Battery-0 5 of ''
   \<and> \<not> is_digit (last ''Now drawing from AC; Battery-0 5 of '')
   \<and> get_battery_info (Completed 1 ''Now drawing from AC; Battery-0 5 of 87%; CHARGING'')
       = (87, True)
   \<and> \<not> digit_then_percent ''no battery''
   \<and> get_battery_info (Completed 0 ''no battery'') = (0, False)
   \<and> replicate 4301 (CHR ''9'') \<noteq> [] \<and> list_all is_digit (replicate 4301 (CHR ''9''))
   \<and> \<not> length (replicate 4301 (CHR ''9'')) \<le> max_str_digits
   \<and> get_battery_info (Completed 0 (replicate 4301 (CHR ''9'') @ ''%; charging''))
       = (0, False)"
  using get_battery_info_amended
          [where out = "''Now drawing from AC; Battery-0 5 of 87%; CHARGING''"
             and pfx = "''Now drawing from AC; Battery-0 5 of ''" and ds = "''87''"
             and sfx = "''; CHARGING''" and rc = 1]
     get_battery_info_amended [where out = "''no battery''" and rc = 0]
     get_battery_info_amended
          [where out = "replicate 4301 (CHR ''9'') @ ''%; charging''"
             and pfx = "[]" and ds = "replicate 4301 (CHR ''9'')"
             and sfx = "''; charging''" and rc = 0]
  by (simp add: is_digit_def dec_value_def digit_val_def lower_def lower_char_def
        char_of_eq_iff startswith_def max_str_digits_def list_all_iff)

subsection \<open>The cycle and health probe\<close>

lemmas line_eval = startswith_def field1_def py_int_def strip_def strip_where_def py_isspace_def
  int_isspace_def max_str_digits_def int_unsigned_def is_digit_def digit_val_def
  strip_quotes_def lines_def guarded_int_def decode_ascii_def

text \<open>
  C2: in \<open>get_cycle_info\<close> the counter-file read and the power-data query share one \<open>try\<close>.
  With the counter file holding \<open>TOTAL_DISCHARGE_CYCLES=abc\<close> and a power-data report that
  says \<open>Maximum Capacity: 91%\<close>, the result is \<open>(0, "--")\<close>: the health is blanked, although
  the same report gives "91%" when the counter file is absent. A counter file that cannot
  be read blanks the health too. In the other direction the two are independent: when the
  power-data query raises, the cycles read from the file are kept.
\<close>

theorem get_cycle_info_health_blanked:
  "get_cycle_info (Content ''TOTAL_DISCHARGE_CYCLES=abc'')
                  (Completed 0 (''Health Information:'' @ [CHR 0x0A] @ ''  Maximum Capacity: 91%''))
     = (0, ''--'')
   \<and> get_cycle_info Absent
                  (Completed 0 (''Health Information:'' @ [CHR 0x0A] @ ''  Maximum Capacity: 91%''))
     = (0, ''91%'')
   \<and> get_cycle_info ReadError
                  (Completed 0 (''Health Information:'' @ [CHR 0x0A] @ ''  Maximum Capacity: 91%''))
     = (0, ''--'')
   \<and> get_cycle_info (Content ''TOTAL_DISCHARGE_CYCLES=42'') RunRaised = (42, ''--'')"
  by (simp add: get_cycle_info_def health_query_def line_eval)

section \<open>Properties of the statistics\<close>

subsection \<open>Session counters\<close>

text \<open>
  The scenario of the specification: a file with a cycle count and a quoted health
  baseline and nothing else.
\<close>

lemma read_counters_scenario:
  "read_counters (Content (''TOTAL_DISCHARGE_CYCLES=42'' @ [CHR 0x0A]
                           @ ''INITIAL_HEALTH=\"88\"'' @ [CHR 0x0A]))
     = initial_counters\<lparr>script_cycles := 42, initial_health := ''88%''\<rparr>"
  by (simp add: read_counters_def line_eval initial_counters_def)

text \<open>
  A malformed cycle-count line ends the loop whatever follows it; a malformed duration
  line is skipped.
\<close>

lemma state_loop_bad_cycles:
  "state_loop st (''TOTAL_DISCHARGE_CYCLES=abc'' # rest) = (Some ValueError, st)"
  by (simp add: line_eval)

lemma state_loop_bad_duration:
  "state_loop st (''TOTAL_ACTIVE_SECS=abc'' # rest) = state_loop st rest"
  by (simp add: line_eval)

text \<open>
  C1: the parsing of the counter file in \<open>show_stats\<close> is not field-local for the cycle
  count. With \<open>TOTAL_DISCHARGE_CYCLES=abc\<close> on the first line, the well-formed lines
  \<open>TOTAL_ACTIVE_SECS=100\<close> and \<open>INITIAL_HEALTH="88"\<close> after it are not extracted: every
  counter keeps its default. When the malformed line is a duration instead, the sibling
  lines after it are extracted.
\<close>

theorem read_counters_bad_cycles_blanks_siblings:
  "read_counters (Content (''TOTAL_DISCHARGE_CYCLES=abc'' @ [CHR 0x0A]
                           @ ''TOTAL_ACTIVE_SECS=100'' @ [CHR 0x0A]
                           @ ''INITIAL_HEALTH=\"88\"''))
     = initial_counters
   \<and> read_counters (Content (''TOTAL_ACTIVE_SECS=abc'' @ [CHR 0x0A]
                             @ ''TOTAL_DISCHARGE_CYCLES=42'' @ [CHR 0x0A]
                             @ ''INITIAL_HEALTH=\"88\"''))
     = initial_counters\<lparr>script_cycles := 42, initial_health := ''88%''\<rparr>"
  by (simp add: read_counters_def line_eval initial_counters_def)

subsection \<open>Calculated health\<close>

subsubsection \<open>The floating-point quotient below \<open>2 ^ 53\<close>\<close>

text \<open>
  While the dividend is below \<open>2 ^ 53\<close> in magnitude, rounding the quotient to a double
  does not reach the next integer, so that \<open>int(a / d)\<close> is the exact quotient with its
  fraction cut off.
\<close>

lemma round_half_even_div_cases:
  "round_half_even_div num den = num div den
   \<or> (round_half_even_div num den = num div den + 1 \<and> den \<le> 2 * (num mod den))"
  by (auto simp: round_half_even_div_def Let_def)

lemma scaled_round_div:
  fixes A d P :: int
  assumes d: "0 < d" and A: "0 \<le> A" and P: "1 \<le> P"
    and C: "d < 2 * P * (d - A mod d)"
  shows "round_half_even_div (A * P) d div P = A div d"
proof -
  let ?F = "A div d" and ?R = "A mod d"
  let ?y = "?R * P"
  have R: "0 \<le> ?R" "?R < d" using d by simp_all
  have AP: "A * P = ?F * P * d + ?y"
  proof -
    have "(?F * d + ?R) * P = ?F * P * d + ?R * P"
      by (simp only: distrib_right mult.assoc mult.commute [of d P])
    then show ?thesis by (simp only: div_mult_mod_eq)
  qed
  have dv: "(A * P) div d = ?F * P + ?y div d"
    and md: "(A * P) mod d = ?y mod d"
    using d by (simp_all add: AP)
  have y0: "0 \<le> ?y" using R P by simp
  have ylt: "?y < P * d" using R P d by (simp add: mult.commute mult_strict_left_mono)
  have g0: "0 \<le> ?y div d" using y0 d by (simp add: pos_imp_zdiv_nonneg_iff)
  have glt: "?y div d < P"
  proof (rule ccontr)
    assume "\<not> ?y div d < P"
    then have "P * d \<le> (?y div d) * d" using d by (simp add: mult_right_mono)
    moreover have "(?y div d) * d \<le> ?y"
    proof -
      have "?y = (?y div d) * d + ?y mod d" by simp
      moreover have "0 \<le> ?y mod d" using d by simp
      ultimately show ?thesis by linarith
    qed
    ultimately show False using ylt by linarith
  qed
  let ?m = "round_half_even_div (A * P) d"
  have lo: "?F * P \<le> ?m"
    using round_half_even_div_cases [of "A * P" d] dv g0 by auto
  have hi: "?m < ?F * P + P"
  proof (cases "?m = (A * P) div d")
    case True
    then show ?thesis using dv glt by simp
  next
    case False
    then have up: "?m = (A * P) div d + 1" and half: "d \<le> 2 * ((A * P) mod d)"
      using round_half_even_div_cases [of "A * P" d] by auto
    have "?y div d \<noteq> P - 1"
    proof
      assume g: "?y div d = P - 1"
      have "?y = (?y div d) * d + ?y mod d" by simp
      then have "?y mod d = ?y - (P - 1) * d" using g by simp
      then have "2 * (?y mod d) = 2 * d - 2 * P * (d - ?R)" by (simp add: algebra_simps)
      then show False using half md C by simp
    qed
    then have "?y div d + 1 < P" using glt by simp
    then show ?thesis using up dv by simp
  qed
  have "?m div P = ?F"
  proof -
    have "?m = ?F * P + (?m - ?F * P)" by simp
    moreover have "0 \<le> ?m - ?F * P" "?m - ?F * P < P" using lo hi by simp_all
    ultimately show ?thesis
      using P by (metis div_pos_pos_trivial div_mult_self3 add.right_neutral less_le_trans zero_less_one not_less order.strict_implies_not_eq less_irrefl zero_less_one_class.zero_le_one)
  qed
  then show ?thesis .
qed

lemma bitlen_pos_ex:
  assumes "0 < x"
  shows "\<exists>p::nat. bitlen x = int p + 1 \<and> 2 ^ p \<le> x \<and> x < 2 ^ (p + 1)"
proof -
  have "bitlen x \<noteq> 0" using assms by (simp add: bitlen_eq_zero_iff)
  then have b: "1 \<le> bitlen x" using bitlen_nonneg [of x] by linarith
  then have "bitlen x = int (nat (bitlen x - 1)) + 1" by simp
  moreover have "nat (bitlen x) = nat (bitlen x - 1) + 1" using b by simp
  ultimately show ?thesis using bitlen_bounds [OF assms] by metis
qed

lemma floor_log2_quot_facts:
  assumes A: "0 < A" "A < 2 ^ 53" and d: "0 < d"
  shows "floor_log2_quot A d \<le> 52"
    and "A < d \<Longrightarrow> floor_log2_quot A d \<le> - 1"
    and "d \<le> A \<Longrightarrow> 0 \<le> floor_log2_quot A d \<and> d * 2 ^ nat (floor_log2_quot A d) \<le> A"
proof -
  obtain pa :: nat where pa: "bitlen A = int pa + 1" "2 ^ pa \<le> A" "A < 2 ^ (pa + 1)"
    using bitlen_pos_ex [OF A(1)] by blast
  obtain pd :: nat where pd: "bitlen d = int pd + 1" "2 ^ pd \<le> d" "d < 2 ^ (pd + 1)"
    using bitlen_pos_ex [OF d] by blast
  have l: "bitlen A - bitlen d = int pa - int pd" using pa(1) pd(1) by simp
  have "(2::int) ^ pa < 2 ^ 53" using pa(2) A(2) by linarith
  then have pa53: "pa < 53" by (rule power_less_imp_less_exp [rotated]) simp
  have le_l: "floor_log2_quot A d \<le> int pa - int pd"
    by (simp add: floor_log2_quot_def Let_def l)
  show "floor_log2_quot A d \<le> 52" using le_l pa53 by linarith
  show "floor_log2_quot A d \<le> - 1" if "A < d"
  proof -
    have "(2::int) ^ pa < 2 ^ (pd + 1)" using pa(2) pd(3) that by linarith
    then have "pa < pd + 1" by (rule power_less_imp_less_exp [rotated]) simp
    then have "int pa - int pd \<le> 0" by simp
    moreover have "\<not> d * 2 ^ nat 0 \<le> A" using that by simp
    ultimately show ?thesis
      by (cases "int pa - int pd = 0") (simp_all add: floor_log2_quot_def Let_def l)
  qed
  show "0 \<le> floor_log2_quot A d \<and> d * 2 ^ nat (floor_log2_quot A d) \<le> A" if "d \<le> A"
  proof -
    have "(2::int) ^ pd < 2 ^ (pa + 1)" using pd(2) pa(3) that by linarith
    then have "pd < pa + 1" by (rule power_less_imp_less_exp [rotated]) simp
    then have pdpa: "pd \<le> pa" by simp
    then have l0: "0 \<le> int pa - int pd" and nl: "nat (int pa - int pd) = pa - pd" by simp_all
    show ?thesis
    proof (cases "d * 2 ^ (pa - pd) \<le> A")
      case True
      then show ?thesis using l0 nl by (simp add: floor_log2_quot_def Let_def l)
    next
      case False
      then have "pa - pd \<noteq> 0" using that by (auto intro: ccontr)
      then have one: "1 \<le> pa - pd" by simp
      then have nl1: "nat (int pa - int pd - 1) = pa - pd - 1" by simp
      have "d * 2 ^ (pa - pd - 1) \<le> 2 ^ (pd + 1) * 2 ^ (pa - pd - 1)"
        using pd(3) by (simp add: mult_right_mono)
      also have "\<dots> = 2 ^ (pd + 1 + (pa - pd - 1))" by (simp only: power_add)
      also have "pd + 1 + (pa - pd - 1) = pa" using one pdpa by simp
      finally have "d * 2 ^ (pa - pd - 1) \<le> A" using pa(2) by linarith
      moreover have "floor_log2_quot A d = int pa - int pd - 1"
        using False l0 nl by (simp add: floor_log2_quot_def Let_def l)
      ultimately show ?thesis using one nl1 by simp
    qed
  qed
qed

lemma nearest_double_small:
  assumes A: "0 < A" "A < 2 ^ 53" and d: "0 < d"
  shows "\<exists>m e. nearest_double A d = (m, e) \<and> e \<le> 0 \<and> m div 2 ^ nat (- e) = A div d"
proof -
  let ?L = "floor_log2_quot A d"
  let ?e = "ulp_exponent A d"
  let ?k = "nat (- ?e)"
  let ?P = "(2::int) ^ ?k"
  have L52: "?L \<le> 52" using floor_log2_quot_facts(1) [OF A d] .
  then have e0: "?e \<le> 0" by (simp add: ulp_exponent_def)
  have P1: "1 \<le> ?P" by simp
  have C: "d < 2 * ?P * (d - A mod d)"
  proof (cases "d \<le> A")
    case True
    then have L0: "0 \<le> ?L" and dA: "d * 2 ^ nat ?L \<le> A"
      using floor_log2_quot_facts(3) [OF A d] by simp_all
    have e: "?e = ?L - 52" using L0 by (simp add: ulp_exponent_def)
    have k: "nat ?L + (?k + 1) = 53" using e L0 L52 by simp
    have "d * 2 ^ nat ?L < 2 ^ 53" using dA A(2) by linarith
    also have "(2::int) ^ 53 = 2 ^ (nat ?L + (?k + 1))" by (simp only: k)
    also have "\<dots> = (2 * ?P) * 2 ^ nat ?L" by (simp add: power_add)
    finally have dlt: "d < 2 * ?P" by simp
    have "A mod d < d" using d by simp
    then have "1 \<le> d - A mod d" by linarith
    then have "2 * ?P * 1 \<le> 2 * ?P * (d - A mod d)" by (intro mult_left_mono) simp_all
    then have "2 * ?P \<le> 2 * ?P * (d - A mod d)" by (simp only: mult_1_right)
    then show ?thesis using dlt by (rule less_le_trans [rotated])
  next
    case False
    then have Ad: "A < d" by simp
    then have "?L \<le> - 1" using floor_log2_quot_facts(2) [OF A d] by simp
    then have "?e \<le> - 53" by (simp add: ulp_exponent_def)
    then have "53 \<le> ?k" by simp
    then have "(2::int) ^ 53 \<le> ?P" by (intro power_increasing) simp_all
    then have AP: "A < ?P" using A(2) by linarith
    have R: "A mod d = A" using A(1) Ad by simp
    have d1: "1 \<le> d - A" using Ad by simp
    show ?thesis
    proof (cases "d \<le> 2 * A")
      case True
      have "2 * ?P * 1 \<le> 2 * ?P * (d - A)" using d1 by (intro mult_left_mono) simp_all
      then have "2 * ?P \<le> 2 * ?P * (d - A)" by (simp only: mult_1_right)
      moreover have "d < 2 * ?P" using True AP by linarith
      ultimately have "d < 2 * ?P * (d - A)" by (rule less_le_trans [rotated])
      then show ?thesis by (simp only: R)
    next
      case False
      then have lt: "d < 2 * (d - A)" by simp
      have "1 * (2 * (d - A)) \<le> ?P * (2 * (d - A))"
        using d1 P1 by (intro mult_right_mono) simp_all
      then have "2 * (d - A) \<le> 2 * ?P * (d - A)" by (simp only: mult_1 mult.assoc mult.left_commute)
      then have "d < 2 * ?P * (d - A)" using lt by (rule less_le_trans [rotated])
      then show ?thesis by (simp only: R)
    qed
  qed
  have round: "round_half_even_div (A * ?P) d div ?P = A div d"
    using d A(1) P1 C by (intro scaled_round_div) simp_all
  show ?thesis
  proof (cases "0 \<le> ?e")
    case True
    then have "?e = 0" using e0 by simp
    then show ?thesis using round by (simp add: nearest_double_def Let_def)
  next
    case False
    then show ?thesis using round e0 by (simp add: nearest_double_def Let_def)
  qed
qed

lemma float_div_trunc_exact:
  assumes a: "a \<noteq> 0" "\<bar>a\<bar> < 2 ^ 53" and d: "0 < d"
  shows "float_div_trunc a d = Inr (trunc_div a d)"
proof -
  have A: "0 < \<bar>a\<bar>" using a(1) by simp
  obtain m e where nd: "nearest_double \<bar>a\<bar> d = (m, e)" and e0: "e \<le> 0"
    and q: "m div 2 ^ nat (- e) = \<bar>a\<bar> div d"
    using nearest_double_small [OF A a(2) d] by blast
  have absd: "\<bar>d\<bar> = d" using d by simp
  show ?thesis
  proof (cases "0 \<le> e")
    case True
    then have e: "e = 0" using e0 by simp
    then have m: "m = \<bar>a\<bar> div d" using q by simp
    have "m \<le> \<bar>a\<bar>" using m d zdiv_mono2 [of "\<bar>a\<bar>" 1 d] by simp
    then have "m < 2 ^ 1024"
    proof -
      have "(2::int) ^ 53 \<le> 2 ^ 1024" by (intro power_increasing) simp_all
      then show ?thesis using \<open>m \<le> \<bar>a\<bar>\<close> a(2) by linarith
    qed
    then show ?thesis
      using a(1) d nd e m by (simp add: float_div_trunc_def trunc_div_def absd)
  next
    case False
    then show ?thesis
      using a(1) d nd q by (simp add: float_div_trunc_def trunc_div_def absd)
  qed
qed

lemma trunc_div_real:
  assumes "0 < d"
  shows "trunc_div a d = trunc_real (real_of_int a / real_of_int d)"
proof (cases "0 \<le> a")
  case True
  then have "0 \<le> real_of_int a / real_of_int d" using assms by simp
  then show ?thesis
    using True assms
    by (cases "a = 0") (simp_all add: trunc_div_def trunc_real_def floor_divide_of_int_eq)
next
  case False
  then have neg: "\<not> 0 \<le> real_of_int a / real_of_int d"
    using assms by (simp add: divide_less_0_iff not_le)
  have "trunc_div a d = - ((- a) div d)"
    using False assms by (simp add: trunc_div_def)
  also have "\<dots> = - \<lfloor>real_of_int (- a) / real_of_int d\<rfloor>"
    by (simp only: floor_divide_of_int_eq)
  also have "\<dots> = \<lceil>real_of_int a / real_of_int d\<rceil>"
    by (simp add: ceiling_def)
  finally show ?thesis using neg by (simp add: trunc_real_def)
qed

lemma trunc_div_abs_le:
  assumes "0 < d"
  shows "\<bar>trunc_div a d\<bar> \<le> \<bar>a\<bar>"
proof -
  have "\<bar>a\<bar> div d \<le> \<bar>a\<bar>" using assms zdiv_mono2 [of "\<bar>a\<bar>" 1 d] by simp
  moreover have "0 \<le> \<bar>a\<bar> div d" using assms by (simp add: pos_imp_zdiv_nonneg_iff)
  ultimately show ?thesis using assms by (simp add: trunc_div_def abs_mult)
qed

text \<open>
  Beyond the bound the rounding shows: a nominal capacity of \<open>10 ^ 20\<close> over a design
  capacity of 3 gives the integer part of the nearest double, and a quotient beyond the
  largest double ends the report.
\<close>

lemma float_div_trunc_beyond:
  "float_div_trunc (10 ^ 20 * 100) 3 = Inr 3333333333333333508096"
  "float_div_trunc (2 ^ 1024) 1 = Inl OverflowError"
  by code_simp+

subsubsection \<open>Digits of a number\<close>

lemma str_nat_length: "0 < k \<Longrightarrow> n < 10 ^ k \<Longrightarrow> length (str_nat n) \<le> k"
proof (induction k arbitrary: n)
  case 0
  then show ?case by simp
next
  case (Suc j)
  show ?case
  proof (cases "n < 10")
    case True
    then show ?thesis by (simp add: str_nat.simps [of n])
  next
    case False
    then have j: "0 < j" using Suc.prems(2) by (cases j) auto
    have "n div 10 < 10 ^ j"
      using Suc.prems(2) by (simp add: less_mult_imp_div_less mult.commute)
    then have "length (str_nat (n div 10)) \<le> j" using Suc.IH [OF j] by simp
    then show ?thesis using False by (simp add: str_nat.simps [of n])
  qed
qed

lemma py_str_small:
  assumes "\<bar>i\<bar> < 2 ^ 53"
  shows "py_str i = Some (str_int i)"
proof -
  have "nat \<bar>i\<bar> < 2 ^ 53" using assms by (simp add: nat_less_iff)
  also have "(2::nat) ^ 53 \<le> 10 ^ 16" by simp
  finally have "length (str_nat (nat \<bar>i\<bar>)) \<le> 16" by (intro str_nat_length) simp_all
  then show ?thesis by (simp add: py_str_def max_str_digits_def)
qed

lemma py_str_pos:
  assumes "0 < d" "length (str_int d) \<le> max_str_digits"
  shows "py_str d = Some (str_int d)"
  using assms by (simp add: py_str_def str_int_def)

lemma str_not_na: "s @ ''%'' \<noteq> ''N/A''"
proof
  assume "s @ ''%'' = ''N/A''"
  then have "last (s @ ''%'') = last ''N/A''" by simp
  then show False by simp
qed

lemma mah_not_na: "s @ t @ u @ '' mAh'' \<noteq> ''N/A''"
proof
  assume "s @ t @ u @ '' mAh'' = ''N/A''"
  then have "last (s @ t @ u @ '' mAh'') = last ''N/A''" by simp
  then show False by simp
qed

lemma calc_health_cap_in_range:
  assumes "n \<noteq> 0" "0 < d" "\<bar>n * 100\<bar> < 2 ^ 53" "length (str_int d) \<le> max_str_digits"
  shows "calc_health_cap (Some n) (Some d) =
           Inr (str_int (trunc_div (n * 100) d) @ ''%'',
                str_int n @ ''/'' @ str_int d @ '' mAh'')"
proof -
  have fd: "float_div_trunc (n * 100) d = Inr (trunc_div (n * 100) d)"
    using assms(1-3) by (intro float_div_trunc_exact) simp_all
  have "\<bar>trunc_div (n * 100) d\<bar> < 2 ^ 53"
    using trunc_div_abs_le [OF assms(2), of "n * 100"] assms(3) by linarith
  then have h: "py_str (trunc_div (n * 100) d) = Some (str_int (trunc_div (n * 100) d))"
    by (rule py_str_small)
  have "\<bar>n\<bar> \<le> \<bar>n * 100\<bar>" by (simp add: abs_mult)
  then have "\<bar>n\<bar> < 2 ^ 53" using assms(3) by linarith
  then have n: "py_str n = Some (str_int n)" by (rule py_str_small)
  have d: "py_str d = Some (str_int d)" using assms(2,4) by (rule py_str_pos)
  show ?thesis using assms(1,2) fd h n d by (simp add: calc_health_cap_def)
qed

text \<open>Two lines of a register dump.\<close>

lemma register_health_example:
  "register_health (''      \"DesignCapacity\" = 5000'' @ [CHR 0x0A]
                    @ ''      \"NominalChargeCapacity\" = 4580'')
     = Inr (''91%'', ''4580/5000 mAh'')"
proof -
  have "ioreg_loop (None, None)
          (lines (''      \"DesignCapacity\" = 5000'' @ [CHR 0x0A]
                  @ ''      \"NominalChargeCapacity\" = 4580''))
        = (Some 4580, Some 5000)"
    by (simp add: line_eval last_field_int_def)
  moreover have "calc_health_cap (Some 4580) (Some 5000) = Inr (''91%'', ''4580/5000 mAh'')"
    using calc_health_cap_in_range [of 4580 5000]
    by (simp add: trunc_div_def str_int_def str_nat.simps digit_char_def max_str_digits_def)
  ultimately show ?thesis by (simp add: register_health_def)
qed

text \<open>
  C3, as the claim states it, fails twice. The percentage is cut off, not rounded to the
  nearest integer: with a nominal capacity of 4580 and a design capacity of 5000 the
  quotient is 91.6; the report says "91%", and rounding gives 92. And a nominal capacity of
  0 counts as unavailable: with a design capacity of 5000 the report says "N/A", not "0%".
\<close>

theorem calc_health_round_counterexample:
  "calc_health_cap (Some 4580) (Some 5000)
     \<noteq> Inr (str_int (round (real_of_int (4580 * 100) / real_of_int 5000)) @ ''%'',
            ''4580/5000 mAh'')
   \<and> calc_health_cap (Some 0) (Some 5000)
     \<noteq> Inr (str_int (round (real_of_int (0 * 100) / real_of_int 5000)) @ ''%'',
            ''0/5000 mAh'')"
proof -
  have "calc_health_cap (Some 4580) (Some 5000) = Inr (''91%'', ''4580/5000 mAh'')"
    using calc_health_cap_in_range [of 4580 5000]
    by (simp add: trunc_div_def str_int_def str_nat.simps digit_char_def max_str_digits_def)
  moreover have "str_int (round (real_of_int (4580 * 100) / real_of_int 5000)) = ''92''"
    by (simp add: round_def str_int_def str_nat.simps digit_char_def)
  moreover have "calc_health_cap (Some 0) (Some 5000) = Inr (''N/A'', ''N/A'')"
    by (simp add: calc_health_cap_def)
  ultimately show ?thesis by simp
qed

text \<open>
  C3, amended: the capacities are integers as \<open>int\<close> reads them, or unavailable. For a
  nominal capacity \<open>n\<close> other than 0 and a design capacity \<open>d\<close> above 0, with \<open>n * 100\<close> below
  \<open>2 ^ 53\<close> in magnitude and \<open>d\<close> of at most 4300 digits, the calculated health is the
  quotient \<open>n * 100 / d\<close> with its fraction cut off, towards zero, followed by a percent
  sign, and the capacity is "n/d mAh". When the nominal capacity is 0, or the design
  capacity is not above 0, or either capacity is unavailable, both are "N/A". Whenever the
  two are produced, the capacity is "N/A" exactly when the calculated health is.
\<close>

theorem calc_health_amended:
  "(n \<noteq> 0 \<and> 0 < d \<and> \<bar>n * 100\<bar> < 2 ^ 53 \<and> length (str_int d) \<le> max_str_digits \<longrightarrow>
      calc_health_cap (Some n) (Some d) =
        Inr (str_int (trunc_real (real_of_int (n * 100) / real_of_int d)) @ ''%'',
             str_int n @ ''/'' @ str_int d @ '' mAh''))
   \<and> (n = 0 \<or> d \<le> 0 \<longrightarrow> calc_health_cap (Some n) (Some d) = Inr (''N/A'', ''N/A''))
   \<and> calc_health_cap None design_cap = Inr (''N/A'', ''N/A'')
   \<and> calc_health_cap nominal_cap None = Inr (''N/A'', ''N/A'')
   \<and> (calc_health_cap nominal_cap design_cap = Inr (health, cap) \<longrightarrow>
        (health = ''N/A'') = (cap = ''N/A''))"
proof -
  have "n \<noteq> 0 \<and> 0 < d \<and> \<bar>n * 100\<bar> < 2 ^ 53 \<and> length (str_int d) \<le> max_str_digits \<longrightarrow>
      calc_health_cap (Some n) (Some d) =
        Inr (str_int (trunc_real (real_of_int (n * 100) / real_of_int d)) @ ''%'',
             str_int n @ ''/'' @ str_int d @ '' mAh'')"
  proof (intro impI, elim conjE)
    assume h: "n \<noteq> 0" "0 < d" "\<bar>n * 100\<bar> < 2 ^ 53" "length (str_int d) \<le> max_str_digits"
    have "trunc_div (n * 100) d = trunc_real (real_of_int (n * 100) / real_of_int d)"
      using h(2) by (rule trunc_div_real)
    then show "calc_health_cap (Some n) (Some d) =
        Inr (str_int (trunc_real (real_of_int (n * 100) / real_of_int d)) @ ''%'',
             str_int n @ ''/'' @ str_int d @ '' mAh'')"
      using calc_health_cap_in_range [OF h] by simp
  qed
  moreover have "n = 0 \<or> d \<le> 0 \<longrightarrow> calc_health_cap (Some n) (Some d) = Inr (''N/A'', ''N/A'')"
    by (auto simp: calc_health_cap_def)
  moreover have "calc_health_cap None design_cap = Inr (''N/A'', ''N/A'')"
    by (simp add: calc_health_cap_def)
  moreover have "calc_health_cap nominal_cap None = Inr (''N/A'', ''N/A'')"
    by (simp add: calc_health_cap_def split: option.splits)
  moreover have "calc_health_cap nominal_cap design_cap = Inr (health, cap) \<longrightarrow>
        (health = ''N/A'') = (cap = ''N/A'')"
    using str_not_na mah_not_na
    by (auto simp: calc_health_cap_def split: option.splits sum.splits if_splits)
  ultimately show ?thesis by blast
qed

theorem calc_health_amended_witness:
  "(4580::int) \<noteq> 0 \<and> (0::int) < 5000 \<and> \<bar>4580 * 100 :: int\<bar> < 2 ^ 53
   \<and> length (str_int 5000) \<le> max_str_digits
   \<and> calc_health_cap (Some 4580) (Some 5000) = Inr (''91%'', ''4580/5000 mAh'')
   \<and> (0::int) \<le> 0
   \<and> calc_health_cap (Some 4580) (Some 0) = Inr (''N/A'', ''N/A'')
   \<and> calc_health_cap (Some 0) (Some 5000) = Inr (''N/A'', ''N/A'')"
  using calc_health_amended [of 4580 5000] calc_health_amended [of 4580 0]
    calc_health_amended [of 0 5000]
  by (simp add: trunc_real_def str_int_def str_nat.simps digit_char_def max_str_digits_def)

section \<open>Properties of the session controller\<close>

subsection \<open>Menu titles and their values\<close>

lemma digit_char_is_digit: "d < 10 \<Longrightarrow> is_digit (digit_char d)"
proof -
  assume "d < 10"
  then have "d \<in> {0, 1, 2, 3, 4, 5, 6, 7, 8, 9}" by auto
  then show ?thesis by (auto simp: is_digit_def digit_char_def)
qed

lemma digit_val_digit_char: "d < 10 \<Longrightarrow> digit_val (digit_char d) = d"
proof -
  assume "d < 10"
  then have "d \<in> {0, 1, 2, 3, 4, 5, 6, 7, 8, 9}" by auto
  then show ?thesis by (auto simp: digit_val_def digit_char_def)
qed

lemma str_nat_digits: "str_nat n \<noteq> [] \<and> list_all is_digit (str_nat n)"
proof (induction n rule: str_nat.induct)
  case (1 n)
  show ?case
  proof (cases "n < 10")
    case True
    then show ?thesis by (simp add: str_nat.simps [of n] digit_char_is_digit)
  next
    case False
    then show ?thesis using 1 by (simp add: str_nat.simps [of n] digit_char_is_digit)
  qed
qed

lemma dec_value_snoc: "dec_value (ds @ [c]) = 10 * dec_value ds + digit_val c"
  by (simp add: dec_value_def)

lemma dec_value_str_nat: "dec_value (str_nat n) = n"
proof (induction n rule: str_nat.induct)
  case (1 n)
  show ?case
  proof (cases "n < 10")
    case True
    then show ?thesis by (simp add: str_nat.simps [of n] dec_value_def digit_val_digit_char)
  next
    case False
    then have "dec_value (str_nat n) = 10 * (n div 10) + n mod 10"
      using 1 by (simp add: str_nat.simps [of n] dec_value_snoc digit_val_digit_char)
    then show ?thesis by simp
  qed
qed

lemma py_int_str_nat:
  "length (str_nat n) \<le> max_str_digits \<Longrightarrow> py_int (str_nat n) = Some (int n)"
  using py_int_digits [of "str_nat n"] str_nat_digits [of n] by (simp add: dec_value_str_nat)

lemma percent_free_digits: "list_all is_digit ds \<Longrightarrow> remove_char (CHR ''%'') ds = ds"
  by (induction ds) (auto simp: remove_char_def is_digit_def)

lemma title_value:
  assumes "0 \<le> v" and "length (str_int v) \<le> max_str_digits"
  shows "py_int (remove_char (CHR ''%'') (str_int v @ ''%'')) = Some v"
proof -
  have s: "str_int v = str_nat (nat v)" using assms(1) by (simp add: str_int_def)
  have "remove_char (CHR ''%'') (str_nat (nat v) @ ''%'') = str_nat (nat v)"
    using percent_free_digits [of "str_nat (nat v)"] str_nat_digits [of "nat v"]
    by (simp add: remove_char_def)
  then show ?thesis using s py_int_str_nat [of "nat v"] assms by simp
qed

text \<open>The titles of the items of the two submenus, and their form.\<close>

lemma percent_titles_list:
  "percent_titles =
     [''20%'', ''25%'', ''30%'', ''35%'', ''40%'', ''45%'', ''50%'', ''55%'', ''60%'',
      ''65%'', ''70%'', ''75%'', ''80%'', ''85%'', ''90%'', ''95%'', ''100%'']"
  by code_simp

lemma percent_titles_values:
  assumes "t \<in> set percent_titles"
  shows "\<exists>v. 0 \<le> v \<and> length (str_int v) \<le> max_str_digits \<and> t = str_int v @ ''%''"
proof -
  from assms obtain k where k: "k < 17" and t: "t = str_int (20 + 5 * int k) @ ''%''"
    by (auto simp: percent_titles_def)
  have "nat (20 + 5 * int k) < 10 ^ 3" using k by simp
  then have "length (str_nat (nat (20 + 5 * int k))) \<le> 3" by (intro str_nat_length) simp_all
  then have "length (str_int (20 + 5 * int k)) \<le> max_str_digits"
    by (simp add: str_int_def max_str_digits_def)
  moreover have "0 \<le> 20 + 5 * int k" by simp
  ultimately show ?thesis using t by blast
qed

subsection \<open>Overrides\<close>

lemma stop_if_running_eq:
  "stop_if_running a w =
     ((if is_active a w then a\<lparr>script_process := None\<rparr> else a), emit (stop_events a w) w)"
  by (cases "script_process a")
     (simp_all add: stop_if_running_def is_active_def stop_events_def signal_session_def emit_def)

lemma pause_at_percent_ok:
  assumes "0 \<le> v" and "length (str_int v) \<le> max_str_digits" and "save_failure w = None"
  shows "pause_at_percent (str_int v @ ''%'') a w =
    (None,
     a\<lparr>config := AList.update ''pause_limit'' (JInt v) (config a), script_process := None,
       status_title := ''Status: Idle'', toggle_title := ''Start Cycling''\<rparr>,
     w\<lparr>config_disk := Parsed (JObj (AList.update ''pause_limit'' (JInt v) (config a))),
       trace := trace w @ ConfigSaved (AList.update ''pause_limit'' (JInt v) (config a))
                  # stop_events a w
                  @ [Pkill [''-9'', ''stress-ng''], Pkill [''-f'', ''ffmpeg.*videotoolbox''],
                     BatteryCmd [''maintain'', str_int v],
                     Notification (''Paused - holding at '' @ str_int v @ ''%'')]\<rparr>)"
  using assms
  apply (simp add: pause_at_percent_def title_value save_config_def stop_if_running_eq Let_def)
  apply (simp add: update_status_def is_active_def emit_def stop_events_def split: option.splits)
  done

lemma stop_at_percent_ok:
  assumes "0 \<le> v" and "length (str_int v) \<le> max_str_digits" and "save_failure w = None"
  shows "stop_at_percent (str_int v @ ''%'') a w =
    (None,
     a\<lparr>config := AList.update ''reset_limit'' (JInt v) (config a), script_process := None,
       status_title := ''Status: Idle'', toggle_title := ''Start Cycling''\<rparr>,
     w\<lparr>config_disk := Parsed (JObj (AList.update ''reset_limit'' (JInt v) (config a))),
       trace := trace w @ ConfigSaved (AList.update ''reset_limit'' (JInt v) (config a))
                  # stop_events a w
                  @ [Pkill [''-9'', ''stress-ng''], Pkill [''-f'', ''ffmpeg.*videotoolbox''],
                     BatteryCmd [''maintain'', str_int v],
                     Notification (''Stopped - reset to '' @ str_int v @ ''% limit'')]\<rparr>)"
  using assms
  apply (simp add: stop_at_percent_def title_value save_config_def stop_if_running_eq Let_def)
  apply (simp add: update_status_def is_active_def emit_def stop_events_def split: option.splits)
  done

text \<open>
  A failed write of the configuration file is not caught: the operation ends there, with
  the new limit in memory only, and the session is not touched.
\<close>

lemma pause_at_percent_save_fails:
  assumes "0 \<le> v" and "length (str_int v) \<le> max_str_digits"
    and "save_failure w = Some left"
  shows "pause_at_percent (str_int v @ ''%'') a w =
    (Some IOError,
     a\<lparr>config := AList.update ''pause_limit'' (JInt v) (config a)\<rparr>,
     w\<lparr>config_disk := left\<rparr>)"
  using assms by (simp add: pause_at_percent_def title_value save_config_def)

text \<open>
  C4: for the pause role and for the stop/reset role, and whether or not a session is
  running on entry, choosing a menu value \<open>v\<close> (a number that \<open>int\<close> reads from the title, with
  the write of the configuration file succeeding) stores \<open>v\<close> in \<open>pause_limit\<close>, respectively \<open>reset_limit\<close>, and writes the
  configuration to disk; signals the session if one is running; ends with no tracked
  session; and, after that, calls the battery CLI with \<open>maintain v\<close>.
\<close>

theorem override_to_percent_effect:
  assumes "0 \<le> v" and "length (str_int v) \<le> max_str_digits" and "save_failure w = None"
  shows "(case pause_at_percent (str_int v @ ''%'') a w of
            (err, a', w') \<Rightarrow>
              err = None
              \<and> map_of (config a') ''pause_limit'' = Some (JInt v)
              \<and> config_disk w' = Parsed (JObj (config a'))
              \<and> script_process a' = None
              \<and> trace w' = trace w @ ConfigSaved (config a') # stop_events a w
                   @ [Pkill [''-9'', ''stress-ng''], Pkill [''-f'', ''ffmpeg.*videotoolbox''],
                      BatteryCmd [''maintain'', str_int v],
                      Notification (''Paused - holding at '' @ str_int v @ ''%'')])
       \<and> (case stop_at_percent (str_int v @ ''%'') a w of
            (err, a', w') \<Rightarrow>
              err = None
              \<and> map_of (config a') ''reset_limit'' = Some (JInt v)
              \<and> config_disk w' = Parsed (JObj (config a'))
              \<and> script_process a' = None
              \<and> trace w' = trace w @ ConfigSaved (config a') # stop_events a w
                   @ [Pkill [''-9'', ''stress-ng''], Pkill [''-f'', ''ffmpeg.*videotoolbox''],
                      BatteryCmd [''maintain'', str_int v],
                      Notification (''Stopped - reset to '' @ str_int v @ ''% limit'')])"
  by (simp add: pause_at_percent_ok [OF assms] stop_at_percent_ok [OF assms] update_conv')

theorem override_to_percent_effect_witness:
  "(0::int) \<le> 50 \<and> length (str_int 50) \<le> max_str_digits
   \<and> save_failure \<lparr>config_disk = NoFile, alive = (\<lambda>pid. pid = 4242), next_pid = 4243,
                    save_failure = None, killpg_ok = False, trace = []\<rparr> = None
   \<and> (case pause_at_percent ''50%''
              \<lparr>config = [(''pause_limit'', JInt 20)], script_process = Some 4242,
               status_title = ''Status: Cycling Active'', toggle_title = ''Stop Cycling''\<rparr>
              \<lparr>config_disk = NoFile, alive = (\<lambda>pid. pid = 4242), next_pid = 4243,
               save_failure = None, killpg_ok = False, trace = []\<rparr> of
         (err, a', w') \<Rightarrow>
           err = None
           \<and> map_of (config a') ''pause_limit'' = Some (JInt 50)
           \<and> config_disk w' = Parsed (JObj (config a'))
           \<and> script_process a' = None
           \<and> trace w' =
               [ConfigSaved (config a'), KillPgFailed 4242, Terminate 4242,
                Pkill [''-9'', ''stress-ng''], Pkill [''-f'', ''ffmpeg.*videotoolbox''],
                BatteryCmd [''maintain'', ''50''],
                Notification ''Paused - holding at 50%''])
   \<and> (case stop_at_percent ''50%''
              \<lparr>config = [(''pause_limit'', JInt 20)], script_process = None,
               status_title = ''Status: Idle'', toggle_title = ''Start Cycling''\<rparr>
              \<lparr>config_disk = NoFile, alive = (\<lambda>pid. pid = 4242), next_pid = 4243,
               save_failure = None, killpg_ok = False, trace = []\<rparr> of
         (err, a', w') \<Rightarrow>
           err = None
           \<and> map_of (config a') ''reset_limit'' = Some (JInt 50)
           \<and> config_disk w' = Parsed (JObj (config a'))
           \<and> script_process a' = None
           \<and> trace w' =
               [ConfigSaved (config a'),
                Pkill [''-9'', ''stress-ng''], Pkill [''-f'', ''ffmpeg.*videotoolbox''],
                BatteryCmd [''maintain'', ''50''],
                Notification ''Stopped - reset to 50% limit''])"
  using override_to_percent_effect
    [of 50 "\<lparr>config_disk = NoFile, alive = (\<lambda>pid. pid = 4242), next_pid = 4243,
                save_failure = None, killpg_ok = False, trace = []\<rparr>"
        "\<lparr>config = [(''pause_limit'', JInt 20)], script_process = Some 4242,
          status_title = ''Status: Cycling Active'', toggle_title = ''Stop Cycling''\<rparr>"]
    override_to_percent_effect
    [of 50 "\<lparr>config_disk = NoFile, alive = (\<lambda>pid. pid = 4242), next_pid = 4243,
                save_failure = None, killpg_ok = False, trace = []\<rparr>"
        "\<lparr>config = [(''pause_limit'', JInt 20)], script_process = None,
          status_title = ''Status: Idle'', toggle_title = ''Start Cycling''\<rparr>"]
  by (simp add: str_int_def str_nat.simps digit_char_def stop_events_def max_str_digits_def
        split: prod.splits)

subsection \<open>Toggle\<close>

text \<open>
  C5: from Idle, \<open>toggle_cycling\<close> writes the current configuration, launches the session
  and leaves its handle tracked (the session still running when the status is refreshed).
  A second \<open>toggle_cycling\<close>, the session still running, signals its process group, or,
  when that fails, the tracked process; it clears the handle and the controller is Idle.
\<close>

theorem toggle_cycling_flip:
  assumes "\<not> is_active a w" and "save_failure w = None"
    and "alive w (next_pid w)" and "alive w' (next_pid w)"
  shows "(case toggle_cycling a w of
            (err, a1, w1) \<Rightarrow>
              err = None
              \<and> config_disk w1 = Parsed (JObj (config a))
              \<and> script_process a1 = Some (next_pid w)
              \<and> is_active a1 w1
              \<and> trace w1 = trace w @ [ConfigSaved (config a), Launched (next_pid w),
                                        Notification ''Cycling started'']
              \<and> (case toggle_cycling a1 w' of
                    (err', a2, w2) \<Rightarrow>
                      err' = None
                      \<and> script_process a2 = None
                      \<and> \<not> is_active a2 w2
                      \<and> trace w2 = trace w'
                           @ (if killpg_ok w' then [KillPg (next_pid w)]
                              else [KillPgFailed (next_pid w), Terminate (next_pid w)])
                           @ [Notification ''Cycling stopped'']))"
  using assms
  by (simp add: toggle_cycling_def save_config_def update_status_def is_active_def emit_def
        signal_session_def Let_def)

theorem toggle_cycling_flip_witness:
  "\<not> is_active \<lparr>config = DEFAULT_CONFIG, script_process = None,
                  status_title = ''Status: Idle'', toggle_title = ''Start Cycling''\<rparr>
                 \<lparr>config_disk = NoFile, alive = (\<lambda>pid. pid = 100), next_pid = 100,
                  save_failure = None, killpg_ok = True, trace = []\<rparr>
   \<and> save_failure \<lparr>config_disk = NoFile, alive = (\<lambda>pid. pid = 100), next_pid = 100,
                    save_failure = None, killpg_ok = True, trace = []\<rparr> = None
   \<and> alive \<lparr>config_disk = NoFile, alive = (\<lambda>pid. pid = 100), next_pid = 100,
             save_failure = None, killpg_ok = True, trace = []\<rparr> 100
   \<and> alive \<lparr>config_disk = Parsed (JObj DEFAULT_CONFIG), alive = (\<lambda>pid. pid = 100),
             next_pid = 101, save_failure = None, killpg_ok = False, trace = []\<rparr> 100
   \<and> (case toggle_cycling
              \<lparr>config = DEFAULT_CONFIG, script_process = None,
               status_title = ''Status: Idle'', toggle_title = ''Start Cycling''\<rparr>
              \<lparr>config_disk = NoFile, alive = (\<lambda>pid. pid = 100), next_pid = 100,
               save_failure = None, killpg_ok = True, trace = []\<rparr> of
         (err, a1, w1) \<Rightarrow>
           err = None \<and> script_process a1 = Some 100
           \<and> trace w1 = [ConfigSaved DEFAULT_CONFIG, Launched 100, Notification ''Cycling started'']
           \<and> (case toggle_cycling a1
                       \<lparr>config_disk = Parsed (JObj DEFAULT_CONFIG), alive = (\<lambda>pid. pid = 100),
                        next_pid = 101, save_failure = None, killpg_ok = False, trace = []\<rparr> of
                 (err', a2, w2) \<Rightarrow>
                   err' = None \<and> script_process a2 = None
                   \<and> trace w2 = [KillPgFailed 100, Terminate 100,
                                  Notification ''Cycling stopped'']))"
  using toggle_cycling_flip
    [of "\<lparr>config = DEFAULT_CONFIG, script_process = None,
           status_title = ''Status: Idle'', toggle_title = ''Start Cycling''\<rparr>"
        "\<lparr>config_disk = NoFile, alive = (\<lambda>pid. pid = 100), next_pid = 100,
          save_failure = None, killpg_ok = True, trace = []\<rparr>"
        "\<lparr>config_disk = Parsed (JObj DEFAULT_CONFIG), alive = (\<lambda>pid. pid = 100),
          next_pid = 101, save_failure = None, killpg_ok = False, trace = []\<rparr>"]
  by (simp add: is_active_def split: prod.splits)

end
